theory Spec2Isabelle
  imports Main "HOL-Library.Char_ord" "HOL-Library.List_Lexorder" "HOL-Library.Multiset"
begin

section \<open>Data model\<close>

text \<open>
  The values that \<open>xml_to_dict\<close> builds and \<open>sort_dict\<close> reorders are Python strings,
  lists and (insertion-ordered) dicts. A dict is an association list in insertion order;
  a Python dict never holds a key twice, which is the predicate \<open>wf_node\<close> below.
  A \<open>char\<close> stands for a code point below 256.
\<close>

datatype node = Leaf string | Seq "node list" | Mapping "(string \<times> node) list"

text \<open>An \<open>xml.etree.ElementTree.Element\<close>: tag, attributes, text and child elements.\<close>

datatype element = Element (tag: string) (attrib: "(string \<times> string) list")
  (text_of: "string option") (children: "element list")

fun wf_node :: "node \<Rightarrow> bool" where
  "wf_node (Leaf s) = True"
| "wf_node (Seq ds) = (\<forall>d\<in>set ds. wf_node d)"
| "wf_node (Mapping kvs) = (distinct (map fst kvs) \<and> (\<forall>kv\<in>set kvs. wf_node (snd kv)))"

section \<open>Python string operations\<close>

text \<open>\<open>str.lower\<close> on the code points below 256: A to Z and the Latin-1 capitals.\<close>

definition lower_char :: "char \<Rightarrow> char" where
  "lower_char c = (let n = (of_char c :: nat) in
     if (65 \<le> n \<and> n \<le> 90) \<or> (192 \<le> n \<and> n \<le> 222 \<and> n \<noteq> 215)
     then char_of (n + 32) else c)"

definition lower :: "string \<Rightarrow> string" where
  "lower s = map lower_char s"

text \<open>\<open>str.isspace\<close> on the code points below 256.\<close>

definition isspace :: "char \<Rightarrow> bool" where
  "isspace c = (let n = (of_char c :: nat) in
     (9 \<le> n \<and> n \<le> 13) \<or> (28 \<le> n \<and> n \<le> 32) \<or> n = 133 \<or> n = 160)"

definition lstrip :: "string \<Rightarrow> string" where
  "lstrip s = dropWhile isspace s"

definition rstrip :: "string \<Rightarrow> string" where
  "rstrip s = rev (dropWhile isspace (rev s))"

definition strip :: "string \<Rightarrow> string" where
  "strip s = rstrip (lstrip s)"

text \<open>\<open>s.split(sep)\<close> for a separator of one character; the result is never empty.\<close>

fun split_char :: "char \<Rightarrow> string \<Rightarrow> string list" where
  "split_char sep [] = [[]]"
| "split_char sep (c # cs) =
     (if c = sep then [] # split_char sep cs
      else (case split_char sep cs of
              [] \<Rightarrow> [[c]]
            | w # ws \<Rightarrow> (c # w) # ws))"

section \<open>Python dicts\<close>

text \<open>\<open>d[k] = v\<close>: an existing key keeps its place, a new key goes to the end.\<close>

fun dict_set :: "('k \<times> 'v) list \<Rightarrow> 'k \<Rightarrow> 'v \<Rightarrow> ('k \<times> 'v) list" where
  "dict_set [] k v = [(k, v)]"
| "dict_set ((k', v') # kvs) k v =
     (if k' = k then (k, v) # kvs else (k', v') # dict_set kvs k v)"

text \<open>\<open>OrderedDict(items)\<close>: the items are inserted one after the other.\<close>

definition ordered_dict :: "('k \<times> 'v) list \<Rightarrow> ('k \<times> 'v) list" where
  "ordered_dict items = foldl (\<lambda>d kv. dict_set d (fst kv) (snd kv)) [] items"

section \<open>Tree converter: \<open>xml_to_dict\<close>\<close>

text \<open>The body of the loop over the children (lines 56 to 64).\<close>

definition add_child :: "(string \<times> node) list \<Rightarrow> string \<Rightarrow> node \<Rightarrow> (string \<times> node) list" where
  "add_child result tg val =
     (case map_of result tg of
        Some (Seq vs) \<Rightarrow> dict_set result tg (Seq (vs @ [val]))
      | Some v \<Rightarrow> dict_set result tg (Seq [v, val])
      | None \<Rightarrow> dict_set result tg val)"

fun xml_to_dict :: "element \<Rightarrow> node" where
  "xml_to_dict (Element tg atts txt chs) =
     (if chs = [] then
        Leaf (case txt of None \<Rightarrow> [] | Some s \<Rightarrow> if s = [] then [] else strip s)
      else
        Mapping (foldl (\<lambda>result child.
                   add_child result (last (split_char CHR ''}'' (tag child))) (xml_to_dict child))
                 [] chs))"

section \<open>Priority sorter: \<open>sort_dict\<close>\<close>

text \<open>
  The two module-level tables, \<open>priority_keywords\<close> and \<open>element_priority_keywords_map\<close>,
  are passed to the sorter as a value; \<open>the_policy\<close> holds the tables of the source.
\<close>

record policy =
  priority_keywords :: "string list"
  element_priority_keywords_map :: "(string \<times> string list) list"

definition the_policy :: policy where
  "the_policy = \<lparr> priority_keywords = [''id'', ''keyname'', ''name'', ''cfgname'', ''cfgName'',
      ''startup_params'', ''partition'', ''mapName'', ''serverName'', ''realm_name'',
      ''interface_id'', ''vendorId''],
    element_priority_keywords_map = [
      (''BdmObject'', [''name'', ''id'']),
      (''OvldComponent'', [''id'', ''name'']),
      (''OvldDropAction'', [''type'']),
      (''counterPeer'', [''appType'']),
      (''TransRouting'', [''profileName'']),
      (''ccsSettings'', [''app_type'']),
      (''domainBasedRealmSetting'', [''homeDomain'']),
      (''perfMonObjectDef'', [''type'']),
      (''LiXpErr2CauseCodeConfig'', [''error_code'']),
      (''LiXpTemplateConfig'', [''service_name''])] \<rparr>"

text \<open>The sort key of \<open>priority_key_func\<close>: the tuple \<open>(0, i)\<close> or \<open>(1, key_lower)\<close>.
  Python compares the first components first, so every \<open>(0, i)\<close> is below every
  \<open>(1, s)\<close>; strings compare by code point, lexicographically.\<close>

datatype prio_key = Prio nat | Rest string

instantiation prio_key :: linorder
begin

fun less_eq_prio_key :: "prio_key \<Rightarrow> prio_key \<Rightarrow> bool" where
  "less_eq_prio_key (Prio i) (Prio j) = (i \<le> j)"
| "less_eq_prio_key (Prio i) (Rest t) = True"
| "less_eq_prio_key (Rest s) (Prio j) = False"
| "less_eq_prio_key (Rest s) (Rest t) = (s \<le> t)"

definition less_prio_key :: "prio_key \<Rightarrow> prio_key \<Rightarrow> bool" where
  "less_prio_key a b = (a \<le> b \<and> \<not> b \<le> a)"

instance
proof
  fix x y z :: prio_key
  show "(x < y) = (x \<le> y \<and> \<not> y \<le> x)" by (simp add: less_prio_key_def)
  show "x \<le> x" by (cases x) simp_all
  show "x \<le> y \<Longrightarrow> y \<le> z \<Longrightarrow> x \<le> z"
    by (cases x; cases y; cases z) auto
  show "x \<le> y \<Longrightarrow> y \<le> x \<Longrightarrow> x = y"
    by (cases x; cases y) auto
  show "x \<le> y \<or> y \<le> x"
    by (cases x; cases y) auto
qed

end

text \<open>The loop \<open>for i, p_key in enumerate(...)\<close>: the first index whose keyword, in
  lower case, is the key.\<close>

fun enumerate_find :: "string \<Rightarrow> string list \<Rightarrow> nat \<Rightarrow> nat option" where
  "enumerate_find key_lower [] i = None"
| "enumerate_find key_lower (p_key # ps) i =
     (if key_lower = lower p_key then Some i else enumerate_find key_lower ps (Suc i))"

text \<open>\<open>parent_tag and parent_tag in element_priority_keywords_map\<close>, with the list found.\<close>

definition specific_keywords :: "policy \<Rightarrow> string option \<Rightarrow> string list option" where
  "specific_keywords P parent_tag =
     (case parent_tag of
        None \<Rightarrow> None
      | Some t \<Rightarrow> if t \<noteq> [] then map_of (element_priority_keywords_map P) t else None)"

definition priority_key_func :: "policy \<Rightarrow> string option \<Rightarrow> string \<times> node \<Rightarrow> prio_key" where
  "priority_key_func P parent_tag item =
     (let key_lower = lower (fst item) in
      case specific_keywords P parent_tag of
        Some specific_priority_keywords \<Rightarrow>
          (case enumerate_find key_lower specific_priority_keywords 0 of
             Some i \<Rightarrow> Prio i | None \<Rightarrow> Rest key_lower)
      | None \<Rightarrow>
          (case enumerate_find key_lower (priority_keywords P) 0 of
             Some i \<Rightarrow> Prio i | None \<Rightarrow> Rest key_lower))"

text \<open>Python's \<open>sorted\<close> is a stable sort by the key, as \<open>sort_key\<close> is.\<close>

fun sort_dict :: "policy \<Rightarrow> node \<Rightarrow> string option \<Rightarrow> node" where
  "sort_dict P (Mapping d) parent_tag =
     Mapping (ordered_dict
       (sort_key (priority_key_func P parent_tag)
         (sort_key (\<lambda>x. lower (fst x))
           (map (\<lambda>kv. (fst kv, sort_dict P (snd kv) (Some (fst kv)))) d))))"
| "sort_dict P (Seq d) parent_tag = Seq (map (\<lambda>i. sort_dict P i parent_tag) d)"
| "sort_dict P (Leaf s) parent_tag = Leaf s"

section \<open>The key order of the specification\<close>

text \<open>
  The order as the specification words it, to be compared with what \<open>sort_dict\<close> builds:
  the priority list is the per-tag list when the parent tag has one and the global list
  otherwise; a key is a priority key when it occurs in that list, case-insensitively, and
  its position is the first place where it does; the keys of a mapping are the priority
  keys by position and then the other keys by their lower-case form.
\<close>

definition resolved_keywords :: "policy \<Rightarrow> string option \<Rightarrow> string list" where
  "resolved_keywords P parent_tag =
     (case specific_keywords P parent_tag of Some ps \<Rightarrow> ps | None \<Rightarrow> priority_keywords P)"

definition is_priority :: "string list \<Rightarrow> string \<Rightarrow> bool" where
  "is_priority ps k = (lower k \<in> set (map lower ps))"

definition position :: "string list \<Rightarrow> string \<Rightarrow> nat" where
  "position ps k = length (takeWhile (\<lambda>p. lower p \<noteq> lower k) ps)"

definition key_order :: "string list \<Rightarrow> string list \<Rightarrow> bool" where
  "key_order ps ks =
     (let pri = takeWhile (is_priority ps) ks; others = dropWhile (is_priority ps) ks
      in (\<forall>k\<in>set others. \<not> is_priority ps k)
         \<and> sorted (map (position ps) pri)
         \<and> sorted (map lower others))"

fun keys_ordered :: "policy \<Rightarrow> string option \<Rightarrow> node \<Rightarrow> bool" where
  "keys_ordered P parent_tag (Leaf s) = True"
| "keys_ordered P parent_tag (Seq ds) = (\<forall>d\<in>set ds. keys_ordered P parent_tag d)"
| "keys_ordered P parent_tag (Mapping kvs) =
     (key_order (resolved_keywords P parent_tag) (map fst kvs)
      \<and> (\<forall>kv\<in>set kvs. keys_ordered P (Some (fst kv)) (snd kv)))"

text \<open>Every list that is the value of a mapping entry holds at least two items.\<close>

fun lists_ge2 :: "node \<Rightarrow> bool" where
  "lists_ge2 (Leaf s) = True"
| "lists_ge2 (Seq ds) = (\<forall>d\<in>set ds. lists_ge2 d)"
| "lists_ge2 (Mapping kvs) =
     (\<forall>kv\<in>set kvs. (case snd kv of Seq ds \<Rightarrow> 2 \<le> length ds | _ \<Rightarrow> True) \<and> lists_ge2 (snd kv))"

text \<open>The sort key as a function of the resolved list and the key in lower case.\<close>

definition key_of :: "string list \<Rightarrow> string \<Rightarrow> prio_key" where
  "key_of ps kl = (case enumerate_find kl ps 0 of Some i \<Rightarrow> Prio i | None \<Rightarrow> Rest kl)"

text \<open>The keys of a mapping, in their order.\<close>

fun keys_of :: "node \<Rightarrow> string list" where
  "keys_of (Mapping kvs) = map fst kvs"
| "keys_of (Seq ds) = []"
| "keys_of (Leaf s) = []"

section \<open>Tree converter: \<open>dict_to_xml\<close>\<close>

text \<open>
  \<open>ET.Element(tag, attrib=namespace)\<close> when \<open>namespace\<close> is truthy, \<open>ET.Element(tag)\<close>
  otherwise. The text of a value that is no dict is \<open>str(d)\<close>: the string itself for a
  string; for a list it is Python's rendering of the list, taken as the parameter
  \<open>str_list\<close>.
\<close>

definition attrib_of :: "(string \<times> string) list option \<Rightarrow> (string \<times> string) list" where
  "attrib_of namespace = (case namespace of None \<Rightarrow> [] | Some ns \<Rightarrow> if ns \<noteq> [] then ns else [])"

fun dict_to_xml :: "(node list \<Rightarrow> string) \<Rightarrow> string \<Rightarrow> node \<Rightarrow> (string \<times> string) list option \<Rightarrow> element" where
  "dict_to_xml str_list tg (Mapping d) namespace =
     Element tg (attrib_of namespace) None
       (concat (map (\<lambda>kv. case snd kv of
                       Seq items \<Rightarrow> map (\<lambda>item. dict_to_xml str_list (fst kv) item None) items
                     | val \<Rightarrow> [dict_to_xml str_list (fst kv) val None]) d))"
| "dict_to_xml str_list tg (Seq items) namespace =
     Element tg (attrib_of namespace) (Some (str_list items)) []"
| "dict_to_xml str_list tg (Leaf s) namespace =
     Element tg (attrib_of namespace) (Some s) []"

text \<open>The scenario of the specification: the document
  \<open><Root><b>2</b><a>1</a><id>X</id></Root>\<close>, parsed, and the global list \<open>[id]\<close>.\<close>

definition scenario_policy :: policy where
  "scenario_policy = \<lparr> priority_keywords = [''id''], element_priority_keywords_map = [] \<rparr>"

definition scenario_root :: element where
  "scenario_root = Element ''Root'' [] None
     [Element ''b'' [] (Some ''2'') [], Element ''a'' [] (Some ''1'') [],
      Element ''id'' [] (Some ''X'') []]"

section \<open>Example values\<close>

text \<open>A dict with priority keys, keys in mixed case and a list of two dicts; and the
  entries of a \<open>TransRouting\<close> block.\<close>

definition example_node :: node where
  "example_node = Mapping [(''zeta'', Leaf ''1''), (''Name'', Leaf ''n''), (''alpha'', Seq [Mapping [(''b'', Leaf []), (''id'', Leaf ''7'')], Mapping [(''B'', Leaf ''x''), (''a'', Leaf ''y'')]]), (''id'', Leaf ''3'')]"

definition example_block :: "(string \<times> node) list" where
  "example_block = [(''id'', Leaf ''7''), (''profileXml'', Leaf ''x''), (''profileName'', Leaf ''P1'')]"

section \<open>Errors\<close>

text \<open>
  The exceptions that end \<open>process_xml_file\<close>: the \<open>ValueError\<close> for a CDB-backup file,
  a failure of the XML parser, a failure to open a file, and the \<open>IndexError\<close> and
  \<open>KeyError\<close> of an index or key that is not there, and the \<open>re.error\<close> of a pattern
  that does not compile.
\<close>

datatype error = UnsupportedFormat | ParseFailure | IOFailure | IndexError | KeyError | PatternError

fun fold_err :: "('a \<Rightarrow> 's \<Rightarrow> error + 's) \<Rightarrow> 'a list \<Rightarrow> 's \<Rightarrow> error + 's" where
  "fold_err f [] s = Inr s"
| "fold_err f (x # xs) s = (case f x s of Inl e \<Rightarrow> Inl e | Inr s' \<Rightarrow> fold_err f xs s')"

section \<open>More string operations\<close>

definition starts_with :: "string \<Rightarrow> string \<Rightarrow> bool" where
  "starts_with s p = (take (length p) s = p)"

text \<open>\<open>p in s\<close> for strings.\<close>

fun contains :: "string \<Rightarrow> string \<Rightarrow> bool" where
  "contains [] p = (p = [])"
| "contains (c # cs) p = (starts_with (c # cs) p \<or> contains cs p)"

text \<open>\<open>s.replace(old, new)\<close>: every occurrence of \<open>old\<close>, from the left, without overlap.\<close>

fun replace_from :: "string \<Rightarrow> string \<Rightarrow> nat \<Rightarrow> string \<Rightarrow> string" where
  "replace_from old new skip [] = []"
| "replace_from old new skip (c # cs) =
     (if 0 < skip then replace_from old new (skip - 1) cs
      else if starts_with (c # cs) old then new @ replace_from old new (length old - 1) cs
      else c # replace_from old new 0 cs)"

definition replace :: "string \<Rightarrow> string \<Rightarrow> string \<Rightarrow> string" where
  "replace s old new =
     (if old = [] then new @ concat (map (\<lambda>c. c # new) s) else replace_from old new 0 s)"

text \<open>\<open>s.split()\<close>: the words between runs of whitespace.\<close>

fun split_ws_from :: "string \<Rightarrow> string \<Rightarrow> string list" where
  "split_ws_from w [] = (if w = [] then [] else [w])"
| "split_ws_from w (c # cs) =
     (if isspace c then (if w = [] then split_ws_from [] cs else w # split_ws_from [] cs)
      else split_ws_from (w @ [c]) cs)"

definition split_ws :: "string \<Rightarrow> string list" where
  "split_ws s = split_ws_from [] s"

text \<open>\<open>s[a:b]\<close> for integers \<open>a\<close> and \<open>b\<close>: a negative index counts from the end.\<close>

definition slice_index :: "nat \<Rightarrow> int \<Rightarrow> nat" where
  "slice_index n i = (if i < 0 then nat (max 0 (int n + i)) else min (nat i) n)"

definition py_slice :: "string \<Rightarrow> int \<Rightarrow> int \<Rightarrow> string" where
  "py_slice s a b =
     (let i = slice_index (length s) a; j = slice_index (length s) b in take (j - i) (drop i s))"

section \<open>Regular expressions\<close>

text \<open>
  The patterns of the program, as Python's \<open>re\<close> matches them: from the left, each
  alternative and each repetition tried in its order, with backtracking. A character class
  is \<open>.\<close> under \<open>DOTALL\<close> or \<open>[\s\S]\<close> (\<open>Any_char\<close>), \<open>.\<close> without the flag
  (\<open>No_newline\<close>), \<open>[^...]\<close> (\<open>None_of\<close>), \<open>\s\<close> (\<open>Whitespace\<close>) or \<open>[^\s...]\<close>
  (\<open>No_space_nor\<close>). \<open>One c\<close> followed by \<open>Star c\<close> is \<open>c+\<close>, \<open>Lazy c\<close> is \<open>c*?\<close>,
  \<open>Open n\<close> and \<open>Close n\<close> are the parentheses of group \<open>n\<close>, \<open>Backref n\<close> is \<open>\n\<close>.
\<close>

datatype cclass = Any_char | No_newline | None_of string | Whitespace | No_space_nor string

fun in_class :: "cclass \<Rightarrow> char \<Rightarrow> bool" where
  "in_class Any_char c = True"
| "in_class No_newline c = (c \<noteq> CHR 0x0A)"
| "in_class (None_of cs) c = (c \<notin> set cs)"
| "in_class Whitespace c = isspace c"
| "in_class (No_space_nor cs) c = (\<not> isspace c \<and> c \<notin> set cs)"

datatype re = Lit string | One cclass | Star cclass | Lazy cclass
  | Open nat | Close nat | Backref nat | Alt "re list list"

fun weight :: "re \<Rightarrow> nat" where
  "weight (Alt alts) = Suc (sum_list (map (\<lambda>a. Suc (sum_list (map weight a))) alts))"
| "weight r = 1"

type_synonym spans = "(nat \<times> nat \<times> nat) list"

definition span_text :: "string \<Rightarrow> nat \<times> nat \<Rightarrow> string" where
  "span_text subject se = take (snd se - fst se) (drop (fst se) subject)"

text \<open>
  \<open>re_walk subject p rest pos opens gs\<close> matches the pattern \<open>p\<close> against \<open>rest\<close>, the part
  of \<open>subject\<close> from \<open>pos\<close> on, and returns the end of the match and the spans of the groups.
\<close>

function re_walk :: "string \<Rightarrow> re list \<Rightarrow> string \<Rightarrow> nat \<Rightarrow> (nat \<times> nat) list \<Rightarrow> spans
    \<Rightarrow> (nat \<times> spans) option" where
  "re_walk subject [] rest pos opens gs = Some (pos, gs)"
| "re_walk subject (Lit s # rs) rest pos opens gs =
     (if starts_with rest s then re_walk subject rs (drop (length s) rest) (pos + length s) opens gs
      else None)"
| "re_walk subject (One cl # rs) rest pos opens gs =
     (case rest of
        [] \<Rightarrow> None
      | c # cs \<Rightarrow> if in_class cl c then re_walk subject rs cs (Suc pos) opens gs else None)"
| "re_walk subject (Star cl # rs) rest pos opens gs =
     (case rest of
        [] \<Rightarrow> re_walk subject rs rest pos opens gs
      | c # cs \<Rightarrow>
          if in_class cl c then
            (case re_walk subject (Star cl # rs) cs (Suc pos) opens gs of
               Some r \<Rightarrow> Some r
             | None \<Rightarrow> re_walk subject rs rest pos opens gs)
          else re_walk subject rs rest pos opens gs)"
| "re_walk subject (Lazy cl # rs) rest pos opens gs =
     (case re_walk subject rs rest pos opens gs of
        Some r \<Rightarrow> Some r
      | None \<Rightarrow>
          (case rest of
             [] \<Rightarrow> None
           | c # cs \<Rightarrow> if in_class cl c then re_walk subject (Lazy cl # rs) cs (Suc pos) opens gs
                      else None))"
| "re_walk subject (Open n # rs) rest pos opens gs =
     re_walk subject rs rest pos ((n, pos) # opens) gs"
| "re_walk subject (Close n # rs) rest pos opens gs =
     (case map_of opens n of
        None \<Rightarrow> None
      | Some b \<Rightarrow> re_walk subject rs rest pos opens ((n, b, pos) # gs))"
| "re_walk subject (Backref n # rs) rest pos opens gs =
     (case map_of gs n of
        None \<Rightarrow> None
      | Some se \<Rightarrow>
          (let s = span_text subject se in
           if starts_with rest s then re_walk subject rs (drop (length s) rest) (pos + length s) opens gs
           else None))"
| "re_walk subject (Alt [] # rs) rest pos opens gs = None"
| "re_walk subject (Alt (a # alts) # rs) rest pos opens gs =
     (case re_walk subject (a @ rs) rest pos opens gs of
        Some r \<Rightarrow> Some r
      | None \<Rightarrow> re_walk subject (Alt alts # rs) rest pos opens gs)"
  by pat_completeness auto
termination
  by (relation "measures [\<lambda>(subject, rs, rest, pos, opens, gs). sum_list (map weight rs),
                          \<lambda>(subject, rs, rest, pos, opens, gs). length rest]")
     auto

text \<open>A match object: \<open>m.start()\<close>, \<open>m.end()\<close> and the spans of the groups.\<close>

record rmatch =
  m_start :: nat
  m_end :: nat
  m_spans :: spans

definition group :: "string \<Rightarrow> rmatch \<Rightarrow> nat \<Rightarrow> string" where
  "group subject m n =
     (if n = 0 then span_text subject (m_start m, m_end m)
      else case map_of (m_spans m) n of None \<Rightarrow> [] | Some se \<Rightarrow> span_text subject se)"

definition group_start :: "rmatch \<Rightarrow> nat \<Rightarrow> nat" where
  "group_start m n =
     (if n = 0 then m_start m else case map_of (m_spans m) n of None \<Rightarrow> 0 | Some se \<Rightarrow> fst se)"

definition match_at :: "re list \<Rightarrow> string \<Rightarrow> string \<Rightarrow> nat \<Rightarrow> rmatch option" where
  "match_at p subject rest pos =
     (case re_walk subject p rest pos [] [] of
        None \<Rightarrow> None
      | Some (e, gs) \<Rightarrow> Some \<lparr> m_start = pos, m_end = e, m_spans = gs \<rparr>)"

text \<open>
  \<open>re.finditer\<close>: the matches from the left, without overlap. No pattern of the program
  matches the empty string; after an empty match the search would go on one character later.
\<close>

fun finditer_from :: "re list \<Rightarrow> string \<Rightarrow> string \<Rightarrow> nat \<Rightarrow> rmatch list" where
  "finditer_from p subject rest pos =
     (case match_at p subject rest pos of
        None \<Rightarrow> (case rest of [] \<Rightarrow> [] | c # cs \<Rightarrow> finditer_from p subject cs (Suc pos))
      | Some m \<Rightarrow>
          m # (case rest of
                 [] \<Rightarrow> []
               | c # cs \<Rightarrow>
                   if pos < m_end m then finditer_from p subject (drop (m_end m - pos) rest) (m_end m)
                   else finditer_from p subject cs (Suc pos)))"

definition finditer :: "re list \<Rightarrow> string \<Rightarrow> rmatch list" where
  "finditer p subject = finditer_from p subject subject 0"

text \<open>\<open>re.match\<close> and \<open>re.search\<close>.\<close>

definition re_match :: "re list \<Rightarrow> string \<Rightarrow> rmatch option" where
  "re_match p subject = match_at p subject subject 0"

fun search_from :: "re list \<Rightarrow> string \<Rightarrow> string \<Rightarrow> nat \<Rightarrow> rmatch option" where
  "search_from p subject rest pos =
     (case match_at p subject rest pos of
        Some m \<Rightarrow> Some m
      | None \<Rightarrow> (case rest of [] \<Rightarrow> None | c # cs \<Rightarrow> search_from p subject cs (Suc pos)))"

definition re_search :: "re list \<Rightarrow> string \<Rightarrow> rmatch option" where
  "re_search p subject = search_from p subject subject 0"

text \<open>\<open>re.sub(pattern, repl, string)\<close> for a function \<open>repl\<close>, which may raise.\<close>

fun sub_build :: "string \<Rightarrow> (rmatch \<Rightarrow> error + string) \<Rightarrow> rmatch list \<Rightarrow> nat \<Rightarrow> error + string" where
  "sub_build subject repl [] pos = Inr (drop pos subject)"
| "sub_build subject repl (m # ms) pos =
     (case repl m of
        Inl e \<Rightarrow> Inl e
      | Inr r \<Rightarrow>
          (case sub_build subject repl ms (m_end m) of
             Inl e \<Rightarrow> Inl e
           | Inr t \<Rightarrow> Inr (take (m_start m - pos) (drop pos subject) @ r @ t)))"

definition re_sub :: "re list \<Rightarrow> (rmatch \<Rightarrow> error + string) \<Rightarrow> string \<Rightarrow> error + string" where
  "re_sub p repl subject = sub_build subject repl (finditer p subject) 0"

text \<open>\<open>re.escape\<close>: a backslash before every character that is special in a pattern.\<close>

definition escaped_chars :: string where
  "escaped_chars = ''()[]{}?*+-|^$.&~# ''
     @ [CHR 0x5C, CHR 0x09, CHR 0x0A, CHR 0x0D, CHR 0x0B, CHR 0x0C]"

definition re_escape :: "string \<Rightarrow> string" where
  "re_escape s = concat (map (\<lambda>c. if c \<in> set escaped_chars then [CHR 0x5C, c] else [c]) s)"

section \<open>Library and file system\<close>

text \<open>
  What the program takes from Python's library, as parameters: \<open>ET.parse\<close> on the text of
  a file (\<open>None\<close> when the parser raises); the calls of \<open>prettify\<close>, that is \<open>ET.tostring\<close>,
  \<open>minidom.parseString\<close> and \<open>toprettyxml\<close> with an indent of four spaces (\<open>None\<close> when one
  of them raises); \<open>str\<close> of a list; the order in which \<open>list(set(...))\<close> enumerates; and
  the compilation of a pattern that an f-string has built, from the flag \<open>DOTALL\<close> and the
  text of the pattern, to the form that is matched (\<open>None\<close> when the text is no pattern).
  The patterns that the source writes out are given in that form, each with its text.
\<close>

record pylib =
  et_parse :: "string \<Rightarrow> element option"
  toprettyxml :: "element \<Rightarrow> string option"
  str_list :: "node list \<Rightarrow> string"
  list_of_set :: "string list \<Rightarrow> string list"
  re_compile :: "bool \<Rightarrow> string \<Rightarrow> re list option"

definition compiled :: "pylib \<Rightarrow> bool \<Rightarrow> string \<Rightarrow> error + re list" where
  "compiled lib dotall pattern =
     (case re_compile lib dotall pattern of None \<Rightarrow> Inl PatternError | Some p \<Rightarrow> Inr p)"

text \<open>
  The file system: the text of the files that can be read, the paths that can be opened
  for writing, and the writes done so far. Every read of a file returns the same text
  (the encoding of the locale is taken to be UTF-8), and a write fails only when the file
  cannot be opened.
\<close>

record filesystem =
  files :: "string \<Rightarrow> string option"
  writable :: "string \<Rightarrow> bool"
  written :: "(string \<times> string) list"

definition write_file :: "filesystem \<Rightarrow> string \<Rightarrow> string \<Rightarrow> error + filesystem" where
  "write_file fs path data =
     (if writable fs path
      then Inr (fs\<lparr>files := (files fs)(path \<mapsto> data), written := written fs @ [(path, data)]\<rparr>)
      else Inl IOFailure)"

section \<open>Content-preservation scanner\<close>

text \<open>The patterns of the three scans, in the order of the source.\<close>

definition block_pattern :: "re list" where
  \<comment> \<open>\<^verbatim>\<open><([^\s>]+)[^>]*>([\s\S]*?)</\1>\<close>\<close>
  "block_pattern = [Lit ''<'', Open 1, One (No_space_nor ''>''), Star (No_space_nor ''>''), Close 1,
     Star (None_of ''>''), Lit ''>'', Open 2, Lazy Any_char, Close 2, Lit ''</'', Backref 1, Lit ''>'']"

definition cdata_pattern :: "re list" where
  \<comment> \<open>\<^verbatim>\<open><([^>]+)>\s*<!\[CDATA\[(.*?)\]\]>\<close> with \<open>DOTALL\<close>\<close>
  "cdata_pattern = [Lit ''<'', Open 1, One (None_of ''>''), Star (None_of ''>''), Close 1, Lit ''>'',
     Star Whitespace, Lit ''<![CDATA['', Open 2, Lazy Any_char, Close 2, Lit '']]>'']"

definition identifier_pattern :: "string list \<Rightarrow> re list" where
  \<comment> \<open>\<^verbatim>\<open><(profileName|name|...)>([^<]+)</\1>\<close>\<close>
  "identifier_pattern names = [Lit ''<'', Open 1, Alt (map (\<lambda>n. [Lit n]) names), Close 1, Lit ''>'',
     Open 2, One (None_of ''<''), Star (None_of ''<''), Close 2, Lit ''</'', Backref 1, Lit ''>'']"

definition xml_decl_pattern :: "re list" where
  \<comment> \<open>\<^verbatim>\<open><([^>]+)>([^<>]*?&lt;\?xml version=\"|&lt;\?xml version=\'|&lt;\?xml version=).*?</[^>]*>\<close>
     with \<open>DOTALL\<close>\<close>
  "xml_decl_pattern = [Lit ''<'', Open 1, One (None_of ''>''), Star (None_of ''>''), Close 1, Lit ''>'',
     Open 2,
     Alt [[Lazy (None_of ''<>''), Lit ''&lt;?xml version=\"''],
          [Lit (''&lt;?xml version='' @ [CHR 0x27])],
          [Lit ''&lt;?xml version='']],
     Close 2, Lazy Any_char, Lit ''</'', Star (None_of ''>''), Lit ''>'']"

definition element_pattern :: "pylib \<Rightarrow> string \<Rightarrow> error + re list" where
  \<comment> \<open>\<^verbatim>\<open>f'<{target_element}[^>]*>(.*?)</{target_element}>'\<close> with \<open>DOTALL\<close>\<close>
  "element_pattern lib target_element =
     compiled lib True (''<'' @ target_element @ ''[^>]*>(.*?)</'' @ target_element @ ''>'')"

definition escaped_pattern :: "re list" where
  \<comment> \<open>\<^verbatim>\<open><([^>]+)>([^<]*?&lt;[^>]*?&gt;[^<]*?)</\1>\<close> with \<open>DOTALL\<close>\<close>
  "escaped_pattern = [Lit ''<'', Open 1, One (None_of ''>''), Star (None_of ''>''), Close 1, Lit ''>'',
     Open 2, Lazy (None_of ''<''), Lit ''&lt;'', Lazy (None_of ''>''), Lit ''&gt;'',
     Lazy (None_of ''<''), Close 2, Lit ''</'', Backref 1, Lit ''>'']"

text \<open>\<open>re.findall\<close> for a pattern with two groups.\<close>

definition findall2 :: "re list \<Rightarrow> string \<Rightarrow> (string \<times> string) list" where
  "findall2 p subject = map (\<lambda>m. (group subject m 1, group subject m 2)) (finditer p subject)"

text \<open>The loop that appends \<open>:id_type=id_value\<close> for every identifier found.\<close>

definition context_of :: "string \<Rightarrow> (string \<times> string) list \<Rightarrow> string" where
  "context_of start identifiers =
     foldl (\<lambda>sig idv. sig @ '':'' @ fst idv @ ''='' @ snd idv) start identifiers"

definition find_cdata_sections :: "string \<Rightarrow> (string \<times> string \<times> string) list" where
  "find_cdata_sections content =
     concat (map (\<lambda>block_match.
         let element_tag = group content block_match 1;
             element_content = group content block_match 2
         in map (\<lambda>cdata_match.
               let cdata_element_tag = strip (group element_content cdata_match 1);
                   cdata_content = group element_content cdata_match 2;
                   identifiers = findall2 (identifier_pattern
                       [''profileName'', ''name'', ''id'', ''keyname'', ''cfgname'', ''cfgName''])
                     element_content;
                   context_signature = context_of element_tag identifiers;
                   element_context = context_signature @ '':'' @ cdata_element_tag
               in (element_context, cdata_element_tag, cdata_content))
             (finditer cdata_pattern element_content))
       (finditer block_pattern content))"

definition find_xml_declaration_escaped_content :: "string \<Rightarrow> error + (string \<times> string) list" where
  "find_xml_declaration_escaped_content content =
     fold_err (\<lambda>m escaped_xml_elements.
         let element_tag = strip (group content m 1) in
         case split_ws element_tag of
           [] \<Rightarrow> Inl IndexError
         | w # ws \<Rightarrow>
             let element_content = group content m 2
                   @ py_slice (group content m 0)
                       (int (group_start m 2 + length (group content m 2)))
                       (int (m_end m) - int (length (''</'' @ w @ ''>'')))
             in Inr (dict_set escaped_xml_elements element_tag element_content))
       (finditer xml_decl_pattern content) []"

definition find_xml_content_in_elements ::
    "pylib \<Rightarrow> string \<Rightarrow> string list \<Rightarrow> error + (string \<times> string \<times> string) list" where
  "find_xml_content_in_elements lib content target_elements =
     fold_err (\<lambda>target_element xml_content_map.
         case element_pattern lib target_element of
           Inl e \<Rightarrow> Inl e
         | Inr p \<Rightarrow>
             Inr (foldl (\<lambda>mp element_match.
                 let element_content = group content element_match 1;
                     identifiers = findall2 (identifier_pattern [''profileName'', ''name'', ''id''])
                       element_content;
                     context_key = context_of target_element identifiers;
                     mp1 = foldl (\<lambda>mp cdata_match.
                             dict_set mp
                               (context_key @ '':'' @ strip (group element_content cdata_match 1))
                               (''cdata'', group element_content cdata_match 2))
                           mp (finditer cdata_pattern element_content)
                 in foldl (\<lambda>mp escaped_match.
                         dict_set mp
                           (context_key @ '':'' @ strip (group element_content escaped_match 1))
                           (''escaped'', group element_content escaped_match 2))
                       mp1 (finditer escaped_pattern element_content))
               xml_content_map (finditer p content)))
       target_elements []"

section \<open>Pretty printer: \<open>prettify\<close>\<close>

definition after_first_newline :: "string \<Rightarrow> error + string" where
  \<comment> \<open>\<open>s.split('\n', 1)[1]\<close>\<close>
  "after_first_newline s =
     (case dropWhile (\<lambda>c. c \<noteq> CHR 0x0A) s of [] \<Rightarrow> Inl IndexError | c # cs \<Rightarrow> Inr cs)"

definition prettify :: "pylib \<Rightarrow> element \<Rightarrow> error + string" where
  "prettify lib elem =
     (case toprettyxml lib elem of
        None \<Rightarrow> Inl ParseFailure
      | Some pretty_xml_with_decl \<Rightarrow>
          (case (if contains pretty_xml_with_decl ''<?xml''
                 then after_first_newline pretty_xml_with_decl
                 else Inr pretty_xml_with_decl) of
             Inl e \<Rightarrow> Inl e
           | Inr pretty_xml \<Rightarrow> Inr (replace pretty_xml ''&quot;'' ''\"'')))"

section \<open>Content reinsertion\<close>

text \<open>The chain of replacements that unescapes the entities; the source has it three times.\<close>

definition unescape :: "string \<Rightarrow> string" where
  "unescape content =
     replace (replace (replace (replace (replace (replace (replace (replace content
       ''&lt;'' ''<'') ''&gt;'' ''>'') ''&amp;lt;'' ''&lt;'') ''&amp;gt;'' ''&gt;'')
       ''&quot;'' ''\"'') ''&apos;'' [CHR 0x27]) ''&amp;quot;'' ''\"'') ''&amp;'' ''&''"

definition tag_text_pattern :: "pylib \<Rightarrow> string \<Rightarrow> error + re list" where
  \<comment> \<open>\<^verbatim>\<open>f'<{element_tag}>([^<]*)</[^>]*>'\<close>\<close>
  "tag_text_pattern lib element_tag =
     compiled lib False (''<'' @ element_tag @ ''>([^<]*)</[^>]*>'')"

definition parent_pattern :: "pylib \<Rightarrow> string \<Rightarrow> error + re list" where
  \<comment> \<open>\<^verbatim>\<open>f'<{parent_tag}[^>]*>(.*?)</{parent_tag}>'\<close>, without \<open>DOTALL\<close>\<close>
  "parent_pattern lib parent_tag =
     compiled lib False (''<'' @ parent_tag @ ''[^>]*>(.*?)</'' @ parent_tag @ ''>'')"

definition xml_pattern :: "pylib \<Rightarrow> string \<Rightarrow> error + re list" where
  \<comment> \<open>\<^verbatim>\<open>f'<{xml_tag}>([^<]*)</{xml_tag}>'\<close>\<close>
  "xml_pattern lib xml_tag =
     compiled lib False (''<'' @ xml_tag @ ''>([^<]*)</'' @ xml_tag @ ''>'')"

definition identifier_search_pattern :: "pylib \<Rightarrow> string \<Rightarrow> string \<Rightarrow> error + re list" where
  \<comment> \<open>\<^verbatim>\<open>f'<{id_type}>{re.escape(id_value)}</{id_type}>'\<close>\<close>
  "identifier_search_pattern lib id_type id_value =
     compiled lib False (''<'' @ id_type @ ''>'' @ re_escape id_value @ ''</'' @ id_type @ ''>'')"

definition escaped_xml_pattern :: "re list" where
  \<comment> \<open>\<^verbatim>\<open><([^>]+)>([^<>]*?&lt;[^<>]*?&gt;[^<]*?)</[^>]*>\<close> with \<open>DOTALL\<close>\<close>
  "escaped_xml_pattern = [Lit ''<'', Open 1, One (None_of ''>''), Star (None_of ''>''), Close 1,
     Lit ''>'', Open 2, Lazy (None_of ''<>''), Lit ''&lt;'', Lazy (None_of ''<>''), Lit ''&gt;'',
     Lazy (None_of ''<''), Close 2, Lit ''</'', Star (None_of ''>''), Lit ''>'']"

text \<open>\<^verbatim>\<open>f'<{element_tag}><![CDATA[{cdata_content}]]></{element_tag.split()[0]}>'\<close>\<close>

definition cdata_wrap :: "string \<Rightarrow> string \<Rightarrow> error + string" where
  "cdata_wrap element_tag cdata_content =
     (case split_ws element_tag of
        [] \<Rightarrow> Inl IndexError
      | w # ws \<Rightarrow> Inr (''<'' @ element_tag @ ''><![CDATA['' @ cdata_content @ '']]></'' @ w @ ''>''))"

text \<open>\<open>re.sub(pattern, create_cdata_replacement, text)\<close> of the first pass.\<close>

definition restore_simple :: "pylib \<Rightarrow> string \<Rightarrow> string \<Rightarrow> string \<Rightarrow> error + string" where
  "restore_simple lib element_tag cdata_content text =
     (case tag_text_pattern lib element_tag of
        Inl e \<Rightarrow> Inl e
      | Inr p \<Rightarrow> re_sub p (\<lambda>m. cdata_wrap element_tag cdata_content) text)"

text \<open>The loop over the identifiers, with its \<open>break\<close>.\<close>

fun is_matching_element :: "pylib \<Rightarrow> string list \<Rightarrow> string \<Rightarrow> error + bool" where
  "is_matching_element lib [] parent_content = Inr True"
| "is_matching_element lib (identifier # identifiers) parent_content =
     (case split_char CHR ''='' identifier of
        [id_type, id_value] \<Rightarrow>
          (case identifier_search_pattern lib id_type id_value of
             Inl e \<Rightarrow> Inl e
           | Inr p \<Rightarrow>
               (case re_search p parent_content of
                  None \<Rightarrow> Inr False
                | Some m \<Rightarrow> is_matching_element lib identifiers parent_content))
      | _ \<Rightarrow> is_matching_element lib identifiers parent_content)"

definition replace_parent :: "string \<Rightarrow> string \<Rightarrow> string \<Rightarrow> string \<Rightarrow> string" where
  "replace_parent out parent_tag parent_content modified_parent_content =
     replace out (''<'' @ parent_tag @ ''>'' @ parent_content @ ''</'' @ parent_tag @ ''>'')
                 (''<'' @ parent_tag @ ''>'' @ modified_parent_content @ ''</'' @ parent_tag @ ''>'')"

text \<open>The body of the loop over the matches of the parent pattern, first pass. The matches
  are those in \<open>subject\<close>, the output when the loop began.\<close>

definition restore_in_parent ::
    "pylib \<Rightarrow> string \<Rightarrow> string list \<Rightarrow> string \<Rightarrow> string \<Rightarrow> string \<Rightarrow> rmatch \<Rightarrow> string \<Rightarrow> error + string" where
  "restore_in_parent lib parent_tag identifiers element_tag cdata_content subject parent_match out =
     (let parent_content = group subject parent_match 1 in
      case is_matching_element lib identifiers parent_content of
        Inl e \<Rightarrow> Inl e
      | Inr matching \<Rightarrow>
          if matching then
            (case restore_simple lib element_tag cdata_content parent_content of
               Inl e \<Rightarrow> Inl e
             | Inr modified_parent_content \<Rightarrow>
                 Inr (replace_parent out parent_tag parent_content modified_parent_content))
          else Inr out)"

definition restore_by_context :: "pylib \<Rightarrow> string \<Rightarrow> string \<times> string \<Rightarrow> string \<Rightarrow> error + string" where
  "restore_by_context lib element_tag pair out =
     (let element_context = fst pair; cdata_content = snd pair;
          context_parts = split_char CHR '':'' element_context;
          parent_tag = hd context_parts
      in if 1 < length context_parts then
           (let identifiers = butlast (tl context_parts) in
            case parent_pattern lib parent_tag of
              Inl e \<Rightarrow> Inl e
            | Inr p \<Rightarrow>
                fold_err (restore_in_parent lib parent_tag identifiers element_tag cdata_content out)
                  (finditer p out) out)
         else restore_simple lib element_tag cdata_content out)"

definition group_by_tag ::
    "(string \<times> string \<times> string) list \<Rightarrow> (string \<times> (string \<times> string) list) list" where
  "group_by_tag cdata_sections =
     foldl (\<lambda>cdata_by_tag section.
         let element_context = fst section; element_tag = fst (snd section);
             cdata_content = snd (snd section)
         in case map_of cdata_by_tag element_tag of
              None \<Rightarrow> dict_set cdata_by_tag element_tag [(element_context, cdata_content)]
            | Some pairs \<Rightarrow>
                dict_set cdata_by_tag element_tag (pairs @ [(element_context, cdata_content)]))
       [] cdata_sections"

text \<open>First pass: the CDATA sections found in the source.\<close>

definition restore_cdata ::
    "pylib \<Rightarrow> (string \<times> (string \<times> string) list) list \<Rightarrow> string \<Rightarrow> error + string" where
  "restore_cdata lib cdata_by_tag out =
     fold_err (\<lambda>entry out.
         let element_tag = fst entry; context_content_pairs = snd entry in
         if length context_content_pairs = 1
         then restore_simple lib element_tag (snd (hd context_content_pairs)) out
         else fold_err (restore_by_context lib element_tag) context_content_pairs out)
       cdata_by_tag out"

text \<open>Second pass: the elements with an escaped XML declaration.\<close>

definition promote_declarations ::
    "pylib \<Rightarrow> (string \<times> string) list \<Rightarrow> (string \<times> (string \<times> string) list) list \<Rightarrow> string
     \<Rightarrow> error + string" where
  "promote_declarations lib escaped_xml_elements cdata_by_tag out =
     fold_err (\<lambda>entry out.
         let element_tag = fst entry in
         if element_tag \<in> set (map fst cdata_by_tag) then Inr out
         else
           (case tag_text_pattern lib element_tag of
              Inl e \<Rightarrow> Inl e
            | Inr p \<Rightarrow>
                re_sub p (\<lambda>m. case split_ws element_tag of
                                 [] \<Rightarrow> Inl IndexError
                               | w # ws \<Rightarrow> Inr (''<'' @ element_tag @ ''><![CDATA[''
                                                @ unescape (group out m 1) @ '']]></'' @ w @ ''>''))
                  out))
       escaped_xml_elements out"

text \<open>Third pass: the content found in the special elements.\<close>

definition refine_in_parent ::
    "pylib \<Rightarrow> string \<Rightarrow> string list \<Rightarrow> string \<Rightarrow> string \<Rightarrow> string \<Rightarrow> string \<Rightarrow> rmatch \<Rightarrow> string
     \<Rightarrow> error + string" where
  "refine_in_parent lib parent_element identifiers xml_tag content_type content subject parent_match out =
     (let parent_content = group subject parent_match 1 in
      case is_matching_element lib identifiers parent_content of
        Inl e \<Rightarrow> Inl e
      | Inr matching \<Rightarrow>
          if matching then
            (case xml_pattern lib xml_tag of
               Inl e \<Rightarrow> Inl e
             | Inr p \<Rightarrow>
                 (case re_sub p (\<lambda>m. Inr (''<'' @ xml_tag @ ''><![CDATA[''
                           @ (if content_type = ''cdata'' then content else unescape content)
                           @ '']]></'' @ xml_tag @ ''>'')) parent_content of
                    Inl e \<Rightarrow> Inl e
                  | Inr modified_parent_content \<Rightarrow>
                      Inr (replace_parent out parent_element parent_content modified_parent_content)))
          else Inr out)"

definition refine_special ::
    "pylib \<Rightarrow> (string \<times> string \<times> string) list \<Rightarrow> string \<Rightarrow> error + string" where
  "refine_special lib xml_content_in_special_elements out =
     fold_err (\<lambda>entry out.
         let context_key = fst entry; content_type = fst (snd entry); content = snd (snd entry);
             parts = split_char CHR '':'' context_key;
             parent_element = hd parts;
             xml_tag = last parts;
             identifiers = filter (\<lambda>part. CHR ''='' \<in> set part) (butlast (tl parts))
         in case parent_pattern lib parent_element of
              Inl e \<Rightarrow> Inl e
            | Inr p \<Rightarrow>
                fold_err (refine_in_parent lib parent_element identifiers xml_tag content_type content out)
                  (finditer p out) out)
       xml_content_in_special_elements out"

text \<open>Fourth pass: what still holds an escaped tag.\<close>

definition convert_escaped_xml_to_cdata :: "string \<Rightarrow> rmatch \<Rightarrow> error + string" where
  "convert_escaped_xml_to_cdata subject m =
     (let element_tag = group subject m 1; content = group subject m 2 in
      if contains content ''&lt;'' \<and> contains content ''&gt;'' then
        (let unescaped = unescape content in
         if contains unescaped ''<'' \<and> contains unescaped ''>''
            \<and> (contains unescaped ''</'' \<or> contains unescaped ''/>'')
         then cdata_wrap element_tag unescaped
         else Inr (group subject m 0))
      else Inr (group subject m 0))"

definition fallback_sweep :: "string \<Rightarrow> error + string" where
  "fallback_sweep out = re_sub escaped_xml_pattern (convert_escaped_xml_to_cdata out) out"

section \<open>\<open>process_xml_file\<close>\<close>

definition namespace_pattern :: "re list" where
  \<comment> \<open>\<^verbatim>\<open>\{(.+?)\}\<close>\<close>
  "namespace_pattern = [Lit ''{'', Open 1, One No_newline, Lazy No_newline, Close 1, Lit ''}'']"

definition namespace_of :: "string \<Rightarrow> (string \<times> string) list option" where
  "namespace_of root_tag_full =
     (case re_match namespace_pattern root_tag_full of
        None \<Rightarrow> None
      | Some namespace_match \<Rightarrow> Some [(''xmlns'', group root_tag_full namespace_match 1)])"

definition dict_get :: "node \<Rightarrow> string \<Rightarrow> error + node" where
  "dict_get d k =
     (case d of
        Mapping kvs \<Rightarrow> (case map_of kvs k of None \<Rightarrow> Inl KeyError | Some v \<Rightarrow> Inr v)
      | _ \<Rightarrow> Inl KeyError)"

text \<open>Lines 391 to 406: from the parsed root to the element that is printed.\<close>

definition new_root :: "pylib \<Rightarrow> policy \<Rightarrow> element \<Rightarrow> error + element" where
  "new_root lib P root =
     (let namespace = namespace_of (tag root);
          root_tag = last (split_char CHR ''}'' (tag root));
          xml_dict = Mapping [(root_tag, xml_to_dict root)];
          sorted_dict = sort_dict P xml_dict (Some root_tag)
      in case dict_get sorted_dict root_tag of
           Inl e \<Rightarrow> Inl e
         | Inr v \<Rightarrow> Inr (dict_to_xml (str_list lib) root_tag v namespace))"

text \<open>The list \<open>special_elements\<close> of lines 365 to 374.\<close>

definition special_elements_of :: "pylib \<Rightarrow> (string \<times> string \<times> string) list \<Rightarrow> string list" where
  "special_elements_of lib cdata_sections =
     (let element_tags_with_cdata =
            map (\<lambda>section. hd (split_char CHR '':'' (fst section))) cdata_sections
      in list_of_set lib
           (list_of_set lib element_tags_with_cdata @ [''TransRouting'', ''normalizationSettings'']))"

text \<open>The four passes over the printed text, lines 409 to 594.\<close>

definition reinsert ::
    "pylib \<Rightarrow> (string \<times> string \<times> string) list \<Rightarrow> (string \<times> string) list
     \<Rightarrow> (string \<times> string \<times> string) list \<Rightarrow> string \<Rightarrow> error + string" where
  "reinsert lib cdata_sections escaped_xml_elements xml_content_in_special_elements
       pretty_xml_output =
     (let cdata_by_tag = group_by_tag cdata_sections in
      case restore_cdata lib cdata_by_tag pretty_xml_output of
        Inl e \<Rightarrow> Inl e
      | Inr out1 \<Rightarrow>
          (case promote_declarations lib escaped_xml_elements cdata_by_tag out1 of
             Inl e \<Rightarrow> Inl e
           | Inr out2 \<Rightarrow>
               (case refine_special lib xml_content_in_special_elements out2 of
                  Inl e \<Rightarrow> Inl e
                | Inr out3 \<Rightarrow> fallback_sweep out3)))"

text \<open>Everything between the first read and the write: the text that is written for the
  text \<open>xml_content\<close> of the input file.\<close>

definition output_text :: "pylib \<Rightarrow> policy \<Rightarrow> string \<Rightarrow> error + string" where
  "output_text lib P xml_content =
     (let cdata_sections = find_cdata_sections xml_content in
      case find_xml_declaration_escaped_content xml_content of
        Inl e \<Rightarrow> Inl e
      | Inr escaped_xml_elements \<Rightarrow>
          (case find_xml_content_in_elements lib xml_content
                  (special_elements_of lib cdata_sections) of
             Inl e \<Rightarrow> Inl e
           | Inr xml_content_in_special_elements \<Rightarrow>
               if starts_with (lstrip xml_content) ''<config'' then Inl UnsupportedFormat
               else
                 (case et_parse lib xml_content of
                    None \<Rightarrow> Inl ParseFailure
                  | Some root \<Rightarrow>
                      (case new_root lib P root of
                         Inl e \<Rightarrow> Inl e
                       | Inr elem \<Rightarrow>
                           (case prettify lib elem of
                              Inl e \<Rightarrow> Inl e
                            | Inr pretty_xml_output \<Rightarrow>
                                reinsert lib cdata_sections escaped_xml_elements
                                  xml_content_in_special_elements pretty_xml_output)))))"

definition process_xml_file ::
    "pylib \<Rightarrow> policy \<Rightarrow> filesystem \<Rightarrow> string \<Rightarrow> string \<Rightarrow> (error + unit) \<times> filesystem" where
  "process_xml_file lib P fs input_file output_file =
     (case files fs input_file of
        None \<Rightarrow> (Inl IOFailure, fs)
      | Some xml_content \<Rightarrow>
          (case output_text lib P xml_content of
             Inl e \<Rightarrow> (Inl e, fs)
           | Inr text \<Rightarrow>
               (case write_file fs output_file text of
                  Inl e \<Rightarrow> (Inl e, fs)
                | Inr fs' \<Rightarrow> (Inr (), fs'))))"

section \<open>The documents of the examples\<close>

text \<open>
  A document with two \<open>TransRouting\<close> blocks, whose \<open>profileXml\<close> elements hold the CDATA
  payloads \<open>x\<close> and \<open>y\<close>; the element that \<open>ET.parse\<close> returns for it; and the text that
  the printer of \<open>prettify\<close> writes after the declaration line, with \<open>a\<close> and \<open>b\<close> between
  the \<open>profileXml\<close> tags.
\<close>

definition routing_text :: "string \<Rightarrow> string \<Rightarrow> string" where
  "routing_text x y =
     ''<Root><TransRouting><profileName>P1</profileName><profileXml><![CDATA['' @ x
     @ '']]></profileXml></TransRouting><TransRouting><profileName>P2</profileName>''
     @ ''<profileXml><![CDATA['' @ y @ '']]></profileXml></TransRouting></Root>''"

definition routing_root :: "string \<Rightarrow> string \<Rightarrow> element" where
  "routing_root x y = Element ''Root'' [] None
     [Element ''TransRouting'' [] None
        [Element ''profileName'' [] (Some ''P1'') [], Element ''profileXml'' [] (Some x) []],
      Element ''TransRouting'' [] None
        [Element ''profileName'' [] (Some ''P2'') [], Element ''profileXml'' [] (Some y) []]]"

definition decl_line :: string where
  "decl_line = ''<?xml version=\"1.0\" ?>\<newline>''"

definition routing_pretty :: "string \<Rightarrow> string \<Rightarrow> string" where
  "routing_pretty a b =
     ''<Root>\<newline>''
     @ ''    <TransRouting>\<newline>''
     @ ''        <profileName>P1</profileName>\<newline>''
     @ ''        <profileXml>'' @ a @ ''</profileXml>\<newline>''
     @ ''    </TransRouting>\<newline>''
     @ ''    <TransRouting>\<newline>''
     @ ''        <profileName>P2</profileName>\<newline>''
     @ ''        <profileXml>'' @ b @ ''</profileXml>\<newline>''
     @ ''    </TransRouting>\<newline>''
     @ ''</Root>\<newline>''"

text \<open>
  The pattern for the block of a tag, as \<open>find_xml_content_in_elements\<close> and the passes
  build it, and its compiled form, with and without \<open>DOTALL\<close>.
\<close>

definition block_text :: "string \<Rightarrow> string" where
  "block_text t = ''<'' @ t @ ''[^>]*>(.*?)</'' @ t @ ''>''"

definition block_form :: "bool \<Rightarrow> string \<Rightarrow> re list" where
  "block_form dotall t =
     [Lit (''<'' @ t), Star (None_of ''>''), Lit ''>'', Open 1,
      Lazy (if dotall then Any_char else No_newline), Close 1, Lit (''</'' @ t @ ''>'')]"

text \<open>The tags of the third scan for a document whose CDATA sections lie in \<open>Root\<close>.\<close>

definition special_tags :: "string list" where
  "special_tags = [''Root'', ''TransRouting'', ''normalizationSettings'']"

definition compiles_blocks :: "pylib \<Rightarrow> string list \<Rightarrow> bool" where
  "compiles_blocks lib tags =
     (\<forall>t\<in>set tags. re_compile lib True (block_text t) = Some (block_form True t)
                  \<and> re_compile lib False (block_text t) = Some (block_form False t))"

definition block_table :: "string list \<Rightarrow> ((bool \<times> string) \<times> re list) list" where
  "block_table tags =
     concat (map (\<lambda>t. [((True, block_text t), block_form True t),
                         ((False, block_text t), block_form False t)]) tags)"

text \<open>A library that parses and prints the documents of a table and compiles the block
  patterns of the special tags, and a file system with one input file.\<close>

definition table_lib :: "(string \<times> element) list \<Rightarrow> (element \<times> string) list \<Rightarrow> pylib" where
  "table_lib parsed printed =
     \<lparr> et_parse = map_of parsed, toprettyxml = map_of printed,
       str_list = (\<lambda>items. []), list_of_set = remdups,
       re_compile = (\<lambda>dotall pattern. map_of (block_table special_tags) (dotall, pattern)) \<rparr>"

definition one_file :: "string \<Rightarrow> string \<Rightarrow> filesystem" where
  "one_file path content =
     \<lparr> files = (\<lambda>p. if p = path then Some content else None),
       writable = (\<lambda>p. True), written = [] \<rparr>"





definition markup_lib :: pylib where
  "markup_lib = table_lib
     [(routing_text ''<x/>'' ''<y/>'', routing_root ''<x/>'' ''<y/>'')]
     [(routing_root ''<x/>'' ''<y/>'', decl_line @ routing_pretty ''&lt;x/&gt;'' ''&lt;y/&gt;'')]"

definition plain_lib :: pylib where
  "plain_lib = table_lib
     [(routing_text ''hello'' ''world'', routing_root ''hello'' ''world'')]
     [(routing_root ''hello'' ''world'', decl_line @ routing_pretty ''hello'' ''world'')]"


section \<open>Properties of trees, elements and runs\<close>

text \<open>An element without its attributes, and an element none of whose parts has one.\<close>

fun strip_attribs :: "element \<Rightarrow> element" where
  "strip_attribs (Element tg atts tx chs) = Element tg [] tx (map strip_attribs chs)"





text \<open>Every key of a dict of the third scan begins with a tag of \<open>T\<close>, up to its first colon.\<close>

definition heads_in :: "string set \<Rightarrow> (string \<times> 'v) list \<Rightarrow> bool" where
  "heads_in T mp = (\<forall>entry\<in>set mp. hd (split_char CHR '':'' (fst entry)) \<in> T)"



section \<open>Lemmas on dicts and sorting\<close>

subsection \<open>Dicts\<close>

lemma dict_set_fresh: "k \<notin> set (map fst d) \<Longrightarrow> dict_set d k v = d @ [(k, v)]"
  by (induction d) auto

lemma ordered_dict_fold:
  "distinct (map fst (acc @ xs)) \<Longrightarrow>
   foldl (\<lambda>d kv. dict_set d (fst kv) (snd kv)) acc xs = acc @ xs"
proof (induction xs arbitrary: acc)
  case Nil
  then show ?case by simp
next
  case (Cons x xs)
  from Cons.prems have fresh: "fst x \<notin> set (map fst acc)" by auto
  from Cons.prems have "distinct (map fst ((acc @ [x]) @ xs))" by simp
  from Cons.IH [OF this] fresh show ?case
    by (simp add: dict_set_fresh)
qed

lemma ordered_dict_distinct: "distinct (map fst xs) \<Longrightarrow> ordered_dict xs = xs"
  using ordered_dict_fold [of "[]" xs] by (simp add: ordered_dict_def)

lemma distinct_fst_sort_key:
  "distinct (map fst (sort_key f xs)) = distinct (map fst xs)"
proof -
  have "mset (map fst (sort_key f xs)) = mset (map fst xs)" by simp
  then show ?thesis by (rule mset_eq_imp_distinct_iff)
qed

subsection \<open>The sort key\<close>

lemma enumerate_find_Some:
  "enumerate_find kl ps i = Some j \<Longrightarrow> i \<le> j \<and> j - i < length ps \<and> kl = lower (ps ! (j - i))"
proof (induction ps arbitrary: i)
  case Nil
  then show ?case by simp
next
  case (Cons p ps)
  show ?case
  proof (cases "kl = lower p")
    case True
    with Cons.prems show ?thesis by simp
  next
    case False
    with Cons.prems have "enumerate_find kl ps (Suc i) = Some j" by simp
    from Cons.IH [OF this] have "Suc i \<le> j" "j - Suc i < length ps" "kl = lower (ps ! (j - Suc i))"
      by auto
    moreover have "j - i = Suc (j - Suc i)" using \<open>Suc i \<le> j\<close> by simp
    ultimately show ?thesis by simp
  qed
qed

lemma enumerate_find_eq:
  "enumerate_find kl ps i =
     (if kl \<in> set (map lower ps) then Some (i + length (takeWhile (\<lambda>p. lower p \<noteq> kl) ps)) else None)"
  by (induction ps arbitrary: i) auto

lemma priority_key_func_key_of:
  "priority_key_func P t item = key_of (resolved_keywords P t) (lower (fst item))"
  by (simp add: priority_key_func_def resolved_keywords_def key_of_def Let_def
      split: option.splits)

lemma key_of_inj: "key_of ps a = key_of ps b \<Longrightarrow> a = b"
  by (auto simp: key_of_def split: option.splits dest!: enumerate_find_Some)

lemma key_of_cases:
  "key_of ps (lower k) = (if is_priority ps k then Prio (position ps k) else Rest (lower k))"
  by (simp add: key_of_def enumerate_find_eq is_priority_def position_def)

lemma sort_key_twice:
  assumes inj: "\<And>a b. g a = g b \<Longrightarrow> a = b"
  shows "sort_key (\<lambda>x. g (f x)) (sort_key f xs) = sort_key (\<lambda>x. g (f x)) xs"
proof (rule properties_for_sort_key)
  show "mset (sort_key (\<lambda>x. g (f x)) xs) = mset (sort_key f xs)" by simp
  show "sorted (map (\<lambda>x. g (f x)) (sort_key (\<lambda>x. g (f x)) xs))" by (rule sorted_sort_key)
  fix k
  have eq: "(\<lambda>x. g (f k) = g (f x)) = (\<lambda>x. f x = f k)"
    using inj by auto
  have eq2: "(\<lambda>x. g (f k) = g (f x)) = (\<lambda>x. g (f x) = g (f k))"
    by auto
  have "filter (\<lambda>x. g (f k) = g (f x)) (sort_key (\<lambda>x. g (f x)) xs)
        = filter (\<lambda>x. g (f k) = g (f x)) xs"
    unfolding eq2 by (rule sort_key_stable)
  also have "\<dots> = filter (\<lambda>x. g (f k) = g (f x)) (sort_key f xs)"
    unfolding eq by (rule sort_key_stable [symmetric])
  finally show "filter (\<lambda>x. g (f k) = g (f x)) (sort_key (\<lambda>x. g (f x)) xs)
        = filter (\<lambda>x. g (f k) = g (f x)) (sort_key f xs)" .
qed

lemma two_sorts:
  "sort_key (priority_key_func P t) (sort_key (\<lambda>x. lower (fst x)) xs)
   = sort_key (priority_key_func P t) xs"
proof -
  have fn: "priority_key_func P t = (\<lambda>x. key_of (resolved_keywords P t) (lower (fst x)))"
    by (rule ext) (rule priority_key_func_key_of)
  show ?thesis unfolding fn
    by (rule sort_key_twice) (rule key_of_inj)
qed

text \<open>What \<open>sort_dict\<close> does to a mapping whose keys are distinct.\<close>

lemma sort_dict_Mapping:
  assumes "distinct (map fst d)"
  shows "sort_dict P (Mapping d) t =
         Mapping (sort_key (priority_key_func P t)
                    (map (\<lambda>kv. (fst kv, sort_dict P (snd kv) (Some (fst kv)))) d))"
proof -
  let ?ys = "map (\<lambda>kv. (fst kv, sort_dict P (snd kv) (Some (fst kv)))) d"
  have fst: "map fst ?ys = map fst d" by (simp add: comp_def)
  have "distinct (map fst (sort_key (priority_key_func P t) ?ys))"
    using assms by (simp only: distinct_fst_sort_key fst)
  then show ?thesis
    by (simp only: sort_dict.simps two_sorts ordered_dict_distinct)
qed

lemma wf_sort_dict: "wf_node d \<Longrightarrow> wf_node (sort_dict P d t)"
proof (induction P d t rule: sort_dict.induct)
  case (1 P d t)
  let ?ys = "map (\<lambda>kv. (fst kv, sort_dict P (snd kv) (Some (fst kv)))) d"
  from "1.prems" have dist: "distinct (map fst d)" and sub: "\<And>kv. kv \<in> set d \<Longrightarrow> wf_node (snd kv)"
    by auto
  have fst: "map fst ?ys = map fst d" by (simp add: comp_def)
  have "distinct (map fst (sort_key (priority_key_func P t) ?ys))"
    using dist by (simp only: distinct_fst_sort_key fst)
  moreover have "\<forall>kv\<in>set ?ys. wf_node (snd kv)"
    using "1.IH" sub by auto
  ultimately show ?case
    unfolding sort_dict_Mapping [OF dist] by simp
next
  case (2 P d t)
  then show ?case by auto
next
  case (3 P s t)
  then show ?case by simp
qed

subsection \<open>Idempotence\<close>



subsection \<open>Key order\<close>

lemma sorted_Prio: "sorted (map (\<lambda>x. Prio (g x)) xs) = sorted (map g xs)"
  by (induction xs) auto

lemma sorted_Rest: "sorted (map (\<lambda>x. Rest (g x)) xs) = sorted (map g xs)"
  by (induction xs) auto

lemma sorted_map_cong_on:
  "(\<And>x. x \<in> set xs \<Longrightarrow> f x = g x) \<Longrightarrow> sorted (map f xs) = sorted (map g xs)"
  by (simp cong: map_cong)

lemma after_Rest:
  assumes "sorted (map (\<lambda>k. key_of ps (lower k)) (k # ks))" "\<not> is_priority ps k"
  shows "\<forall>k'\<in>set ks. \<not> is_priority ps k'"
proof
  fix k' assume k': "k' \<in> set ks"
  from assms(1) k' have "key_of ps (lower k) \<le> key_of ps (lower k')" by auto
  with assms(2) show "\<not> is_priority ps k'"
    by (auto simp: key_of_cases split: if_splits)
qed

lemma others_not_priority:
  "sorted (map (\<lambda>k. key_of ps (lower k)) ks) \<Longrightarrow>
   \<forall>k\<in>set (dropWhile (is_priority ps) ks). \<not> is_priority ps k"
proof (induction ks)
  case Nil
  then show ?case by simp
next
  case (Cons k ks)
  show ?case
  proof (cases "is_priority ps k")
    case True
    from Cons.prems have "sorted (map (\<lambda>k. key_of ps (lower k)) ks)" by simp
    then have "\<forall>k\<in>set (dropWhile (is_priority ps) ks). \<not> is_priority ps k"
      by (rule Cons.IH)
    moreover have "dropWhile (is_priority ps) (k # ks) = dropWhile (is_priority ps) ks"
      using True by simp
    ultimately show ?thesis by (simp only:)
  next
    case False
    have "dropWhile (is_priority ps) (k # ks) = k # ks"
      using False by simp
    moreover have "\<forall>k'\<in>set (k # ks). \<not> is_priority ps k'"
      using after_Rest [OF Cons.prems False] False by simp
    ultimately show ?thesis by (simp only:)
  qed
qed

lemma sorted_map_takeWhile: "sorted (map f xs) \<Longrightarrow> sorted (map f (takeWhile Q xs))"
  by (induction xs) (auto dest: set_takeWhileD)

lemma sorted_map_dropWhile: "sorted (map f xs) \<Longrightarrow> sorted (map f (dropWhile Q xs))"
  by (induction xs) simp_all

lemma sorted_key_order:
  assumes "sorted (map (\<lambda>k. key_of ps (lower k)) ks)"
  shows "key_order ps ks"
proof -
  let ?f = "\<lambda>k. key_of ps (lower k)"
  have a: "\<forall>k\<in>set (dropWhile (is_priority ps) ks). \<not> is_priority ps k"
    using assms by (rule others_not_priority)
  have "sorted (map ?f (takeWhile (is_priority ps) ks))"
    using assms by (rule sorted_map_takeWhile)
  moreover have "sorted (map ?f (takeWhile (is_priority ps) ks))
      = sorted (map (\<lambda>k. Prio (position ps k)) (takeWhile (is_priority ps) ks))"
    by (rule sorted_map_cong_on) (auto simp: key_of_cases dest: set_takeWhileD)
  ultimately have b: "sorted (map (position ps) (takeWhile (is_priority ps) ks))"
    by (simp add: sorted_Prio)
  have "sorted (map ?f (dropWhile (is_priority ps) ks))"
    using assms by (rule sorted_map_dropWhile)
  moreover have "sorted (map ?f (dropWhile (is_priority ps) ks))
      = sorted (map (\<lambda>k. Rest (lower k)) (dropWhile (is_priority ps) ks))"
    by (rule sorted_map_cong_on) (use a in \<open>auto simp: key_of_cases\<close>)
  ultimately have c: "sorted (map lower (dropWhile (is_priority ps) ks))"
    by (simp add: sorted_Rest)
  from a b c show ?thesis by (simp add: key_order_def)
qed

lemma keys_ordered_sort_dict: "wf_node d \<Longrightarrow> keys_ordered P t (sort_dict P d t)"
proof (induction P d t rule: sort_dict.induct)
  case (1 P d t)
  define g where "g = (\<lambda>kv :: string \<times> node. (fst kv, sort_dict P (snd kv) (Some (fst kv))))"
  define R where "R = sort_key (priority_key_func P t) (map g d)"
  from "1.prems" have dist: "distinct (map fst d)" and sub: "\<And>kv. kv \<in> set d \<Longrightarrow> wf_node (snd kv)"
    by auto
  have first: "sort_dict P (Mapping d) t = Mapping R"
    unfolding R_def g_def by (rule sort_dict_Mapping [OF dist])
  have srt: "sorted (map (priority_key_func P t) R)"
    unfolding R_def by (rule sorted_sort_key)
  have fn: "priority_key_func P t = (\<lambda>x. key_of (resolved_keywords P t) (lower (fst x)))"
    by (rule ext) (rule priority_key_func_key_of)
  have "map (priority_key_func P t) R
      = map (\<lambda>k. key_of (resolved_keywords P t) (lower k)) (map fst R)"
    unfolding fn by (simp only: map_map comp_def)
  with srt have "sorted (map (\<lambda>k. key_of (resolved_keywords P t) (lower k)) (map fst R))"
    by (simp only:)
  then have keys: "key_order (resolved_keywords P t) (map fst R)"
    by (rule sorted_key_order)
  have sub2: "keys_ordered P (Some (fst x)) (snd x)" if "x \<in> set R" for x
  proof -
    from that have "x \<in> set (map g d)" unfolding R_def by (simp only: set_sort)
    then obtain kv where kv: "kv \<in> set d" and x: "x = g kv" by auto
    have "keys_ordered P (Some (fst kv)) (sort_dict P (snd kv) (Some (fst kv)))"
      by (rule "1.IH" [OF kv sub [OF kv]])
    then show ?thesis unfolding x g_def by (simp only: fst_conv snd_conv)
  qed
  show ?case unfolding first keys_ordered.simps
  proof (intro conjI ballI)
    show "key_order (resolved_keywords P t) (map fst R)" by (rule keys)
    fix kv assume "kv \<in> set R"
    then show "keys_ordered P (Some (fst kv)) (snd kv)" by (rule sub2)
  qed
next
  case (2 P d t)
  then show ?case by auto
next
  case (3 P s t)
  then show ?case by simp
qed

subsection \<open>What \<open>xml_to_dict\<close> builds\<close>

lemma map_fst_dict_set:
  "map fst (dict_set d k v) = (if k \<in> set (map fst d) then map fst d else map fst d @ [k])"
  by (induction d) force+

lemma set_dict_set: "set (dict_set d k v) \<subseteq> insert (k, v) (set d)"
  by (induction d) (auto split: if_splits)

lemma distinct_dict_set: "distinct (map fst d) \<Longrightarrow> distinct (map fst (dict_set d k v))"
  by (simp add: map_fst_dict_set)

lemma distinct_add_child: "distinct (map fst r) \<Longrightarrow> distinct (map fst (add_child r t v))"
  by (simp add: add_child_def distinct_dict_set split: option.splits node.splits)

lemma foldl_invariant:
  assumes "I acc" and "\<And>a x. x \<in> set xs \<Longrightarrow> I a \<Longrightarrow> I (f a x)"
  shows "I (foldl f acc xs)"
  using assms by (induction xs arbitrary: acc) auto

lemma xml_to_dict_not_Seq: "xml_to_dict e \<noteq> Seq ds"
  by (cases e) simp

lemma in_add_child:
  assumes "kv \<in> set (add_child r t v)"
  shows "kv \<in> set r \<or> kv = (t, v)
         \<or> (\<exists>vs. (t, Seq vs) \<in> set r \<and> kv = (t, Seq (vs @ [v])))
         \<or> (\<exists>w. (t, w) \<in> set r \<and> kv = (t, Seq [w, v]))"
proof (cases "map_of r t")
  case None
  with assms set_dict_set [of r t v] show ?thesis
    by (auto simp: add_child_def)
next
  case (Some w)
  then have mem: "(t, w) \<in> set r" by (rule map_of_SomeD)
  show ?thesis
  proof (cases w)
    case (Seq vs)
    with Some assms set_dict_set [of r t "Seq (vs @ [v])"] mem show ?thesis
      by (auto simp: add_child_def)
  next
    case (Leaf s)
    with Some assms set_dict_set [of r t "Seq [w, v]"] mem show ?thesis
      by (auto simp: add_child_def)
  next
    case (Mapping m)
    with Some assms set_dict_set [of r t "Seq [w, v]"] mem show ?thesis
      by (auto simp: add_child_def)
  qed
qed

lemma lists_ge2_add_child:
  assumes r: "lists_ge2 (Mapping r)" and v: "lists_ge2 v" and ns: "\<And>ds. v \<noteq> Seq ds"
  shows "lists_ge2 (Mapping (add_child r t v))"
proof -
  have "(case snd kv of Seq ds \<Rightarrow> 2 \<le> length ds | _ \<Rightarrow> True) \<and> lists_ge2 (snd kv)"
    if "kv \<in> set (add_child r t v)" for kv
  proof -
    from in_add_child [OF that] consider
      (old) "kv \<in> set r" | (new) "kv = (t, v)"
      | (app) vs where "(t, Seq vs) \<in> set r" "kv = (t, Seq (vs @ [v]))"
      | (two) w where "(t, w) \<in> set r" "kv = (t, Seq [w, v])"
      by blast
    then show ?thesis
    proof cases
      case old
      with r show ?thesis by auto
    next
      case new
      with v ns show ?thesis by (cases v) auto
    next
      case app
      from r app(1) have "2 \<le> length vs" "lists_ge2 (Seq vs)" by fastforce+
      with v app(2) show ?thesis by auto
    next
      case two
      from r two(1) have "lists_ge2 w" by fastforce
      with v two(2) show ?thesis by auto
    qed
  qed
  then show ?thesis by simp
qed

lemma lists_ge2_xml_to_dict: "lists_ge2 (xml_to_dict e)"
proof (induction e rule: xml_to_dict.induct)
  case (1 tg atts tx chs)
  show ?case
  proof (cases "chs = []")
    case True
    then show ?thesis by simp
  next
    case False
    have "lists_ge2 (Mapping (foldl (\<lambda>result child.
             add_child result (last (split_char CHR ''}'' (tag child))) (xml_to_dict child)) [] chs))"
    proof (rule foldl_invariant [of "\<lambda>r. lists_ge2 (Mapping r)"])
      show "lists_ge2 (Mapping [])" by simp
      fix a x assume x: "x \<in> set chs" and a: "lists_ge2 (Mapping a)"
      show "lists_ge2 (Mapping (add_child a (last (split_char CHR ''}'' (tag x))) (xml_to_dict x)))"
        using a "1.IH" [OF False x] xml_to_dict_not_Seq by (rule lists_ge2_add_child)
    qed
    with False show ?thesis by simp
  qed
qed

lemma wf_add_child:
  assumes r: "wf_node (Mapping r)" and v: "wf_node v"
  shows "wf_node (Mapping (add_child r t v))"
proof -
  have "wf_node (snd kv)" if "kv \<in> set (add_child r t v)" for kv
  proof -
    from in_add_child [OF that] consider
      (old) "kv \<in> set r" | (new) "kv = (t, v)"
      | (app) vs where "(t, Seq vs) \<in> set r" "kv = (t, Seq (vs @ [v]))"
      | (two) w where "(t, w) \<in> set r" "kv = (t, Seq [w, v])"
      by blast
    then show ?thesis
    proof cases
      case old
      with r show ?thesis by auto
    next
      case new
      with v show ?thesis by simp
    next
      case app
      from r app(1) have "wf_node (Seq vs)" by fastforce
      with v app(2) show ?thesis by auto
    next
      case two
      from r two(1) have "wf_node w" by fastforce
      with v two(2) show ?thesis by auto
    qed
  qed
  moreover from r have "distinct (map fst (add_child r t v))"
    by (simp add: distinct_add_child)
  ultimately show ?thesis by simp
qed

lemma wf_xml_to_dict: "wf_node (xml_to_dict e)"
proof (induction e rule: xml_to_dict.induct)
  case (1 tg atts tx chs)
  show ?case
  proof (cases "chs = []")
    case True
    then show ?thesis by simp
  next
    case False
    have "wf_node (Mapping (foldl (\<lambda>result child.
             add_child result (last (split_char CHR ''}'' (tag child))) (xml_to_dict child)) [] chs))"
    proof (rule foldl_invariant [of "\<lambda>r. wf_node (Mapping r)"])
      show "wf_node (Mapping [])" by simp
      fix a x assume x: "x \<in> set chs" and a: "wf_node (Mapping a)"
      show "wf_node (Mapping (add_child a (last (split_char CHR ''}'' (tag x))) (xml_to_dict x)))"
        using a "1.IH" [OF False x] by (rule wf_add_child)
    qed
    with False show ?thesis by simp
  qed
qed

subsection \<open>Lists under \<open>sort_dict\<close>\<close>

lemma sort_dict_Seq:
  "sort_dict P d t = Seq ds' \<Longrightarrow> \<exists>ds. d = Seq ds \<and> length ds' = length ds"
  by (cases d) auto

lemma lists_ge2_sort_dict: "wf_node d \<Longrightarrow> lists_ge2 d \<Longrightarrow> lists_ge2 (sort_dict P d t)"
proof (induction P d t rule: sort_dict.induct)
  case (1 P d t)
  define g where "g = (\<lambda>kv :: string \<times> node. (fst kv, sort_dict P (snd kv) (Some (fst kv))))"
  define R where "R = sort_key (priority_key_func P t) (map g d)"
  from "1.prems" have dist: "distinct (map fst d)" and sub: "\<And>kv. kv \<in> set d \<Longrightarrow> wf_node (snd kv)"
    by auto
  have first: "sort_dict P (Mapping d) t = Mapping R"
    unfolding R_def g_def by (rule sort_dict_Mapping [OF dist])
  have "(case snd x of Seq ds \<Rightarrow> 2 \<le> length ds | _ \<Rightarrow> True) \<and> lists_ge2 (snd x)"
    if "x \<in> set R" for x
  proof -
    from that have "x \<in> set (map g d)" unfolding R_def by (simp only: set_sort)
    then obtain kv where kv: "kv \<in> set d" and x: "x = g kv" by auto
    from "1.prems"(2) kv
    have old: "(case snd kv of Seq ds \<Rightarrow> 2 \<le> length ds | _ \<Rightarrow> True)" "lists_ge2 (snd kv)"
      by auto
    have new: "lists_ge2 (sort_dict P (snd kv) (Some (fst kv)))"
      by (rule "1.IH" [OF kv sub [OF kv] old(2)])
    have "2 \<le> length ds'" if "sort_dict P (snd kv) (Some (fst kv)) = Seq ds'" for ds'
    proof -
      from sort_dict_Seq [OF that] obtain ds where "snd kv = Seq ds" "length ds' = length ds"
        by blast
      with old(1) show ?thesis by simp
    qed
    with new show ?thesis unfolding x g_def by (auto split: node.splits)
  qed
  then show ?case unfolding first by simp
next
  case (2 P d t)
  then show ?case by auto
next
  case (3 P s t)
  then show ?case by simp
qed


section \<open>Lemmas for the claims on the tree\<close>

lemma scenario_sorted:
  "sort_dict scenario_policy (Mapping [(''Root'', xml_to_dict scenario_root)]) (Some ''Root'')
   = Mapping [(''Root'', Mapping [(''id'', Leaf ''X''), (''a'', Leaf ''1''), (''b'', Leaf ''2'')])]"
  by code_simp

lemma scenario_children:
  "map tag (children (dict_to_xml sl ''Root''
      (Mapping [(''id'', Leaf ''X''), (''a'', Leaf ''1''), (''b'', Leaf ''2'')]) None))
   = [''id'', ''a'', ''b'']"
  by simp

lemma wf_example_node: "wf_node example_node"
  by code_simp

lemma map_fst_insort_key:
  "map fst (insort_key (\<lambda>x. h (fst x)) x xs) = insort_key h (fst x) (map fst xs)"
  by (induction xs) simp_all

lemma map_fst_sort_key:
  "map fst (sort_key (\<lambda>x. h (fst x)) xs) = sort_key h (map fst xs)"
  by (induction xs) (simp_all add: map_fst_insort_key)

lemma keys_of_sort_dict:
  assumes "distinct (map fst d)"
  shows "keys_of (sort_dict P (Mapping d) t)
         = sort_key (\<lambda>k. key_of (resolved_keywords P t) (lower k)) (map fst d)"
proof -
  have fn: "priority_key_func P t = (\<lambda>x. key_of (resolved_keywords P t) (lower (fst x)))"
    by (rule ext) (rule priority_key_func_key_of)
  have fsts: "map fst (map (\<lambda>kv. (fst kv, sort_dict P (snd kv) (Some (fst kv)))) d) = map fst d"
    by (simp add: comp_def)
  have "map fst (sort_key (\<lambda>x. key_of (resolved_keywords P t) (lower (fst x)))
            (map (\<lambda>kv. (fst kv, sort_dict P (snd kv) (Some (fst kv)))) d))
        = sort_key (\<lambda>k. key_of (resolved_keywords P t) (lower k))
            (map fst (map (\<lambda>kv. (fst kv, sort_dict P (snd kv) (Some (fst kv)))) d))"
    by (rule map_fst_sort_key [of "\<lambda>k. key_of (resolved_keywords P t) (lower k)"])
  then show ?thesis
    unfolding sort_dict_Mapping [OF assms] keys_of.simps fn fsts .
qed

lemma resolved_specific:
  assumes "parent_tag \<noteq> []" "map_of (element_priority_keywords_map P) parent_tag = Some ps"
    and "element_priority_keywords_map Q = element_priority_keywords_map P"
  shows "resolved_keywords Q (Some parent_tag) = ps"
  using assms by (simp add: resolved_keywords_def specific_keywords_def)

lemma example_block_facts:
  "''TransRouting'' \<noteq> []"
  "map_of (element_priority_keywords_map the_policy) ''TransRouting'' = Some [''profileName'']"
  "wf_node (Mapping example_block)"
  "is_priority (priority_keywords the_policy) ''id''"
  "\<not> is_priority [''profileName''] ''id''"
  by code_simp+

lemma lists_ge2_example_node: "lists_ge2 example_node"
  by code_simp

section \<open>The key order of a sorted tree\<close>

text \<open>
  Claim C1. In the tree that \<open>sort_dict\<close> returns, the keys of every mapping are in the
  order of the specification for the parent tag of that mapping: first the keys that occur,
  case-insensitively, in the resolved priority list, by their position in it, then the other
  keys by their lower-case form. This holds for every dict (first conjunct) and so for the
  dict that \<open>process_xml_file\<close> builds from any parsed root (second conjunct). For the
  document \<open><Root><b>2</b><a>1</a><id>X</id></Root>\<close> and the global list \<open>[id]\<close> the
  sorted children are \<open>id\<close>, \<open>a\<close>, \<open>b\<close>, in the dict and in the element built from it.
\<close>

theorem sort_dict_key_order:
  "(wf_node d \<longrightarrow> keys_ordered P parent_tag (sort_dict P d parent_tag))
   \<and> keys_ordered P (Some root_tag) (sort_dict P (Mapping [(root_tag, xml_to_dict root)]) (Some root_tag))
   \<and> sort_dict scenario_policy (Mapping [(''Root'', xml_to_dict scenario_root)]) (Some ''Root'')
       = Mapping [(''Root'', Mapping [(''id'', Leaf ''X''), (''a'', Leaf ''1''), (''b'', Leaf ''2'')])]
   \<and> map tag (children (dict_to_xml sl ''Root''
         (Mapping [(''id'', Leaf ''X''), (''a'', Leaf ''1''), (''b'', Leaf ''2'')]) None))
       = [''id'', ''a'', ''b'']"
proof (intro conjI impI)
  assume "wf_node d"
  then show "keys_ordered P parent_tag (sort_dict P d parent_tag)"
    by (rule keys_ordered_sort_dict)
next
  have "wf_node (Mapping [(root_tag, xml_to_dict root)])"
    by (simp add: wf_xml_to_dict)
  then show "keys_ordered P (Some root_tag)
      (sort_dict P (Mapping [(root_tag, xml_to_dict root)]) (Some root_tag))"
    by (rule keys_ordered_sort_dict)
next
  show "sort_dict scenario_policy (Mapping [(''Root'', xml_to_dict scenario_root)]) (Some ''Root'')
       = Mapping [(''Root'', Mapping [(''id'', Leaf ''X''), (''a'', Leaf ''1''), (''b'', Leaf ''2'')])]"
    by (rule scenario_sorted)
next
  show "map tag (children (dict_to_xml sl ''Root''
         (Mapping [(''id'', Leaf ''X''), (''a'', Leaf ''1''), (''b'', Leaf ''2'')]) None))
       = [''id'', ''a'', ''b'']"
    by (rule scenario_children)
qed

text \<open>The theorem at a dict with priority keys, mixed case and a list of dicts.\<close>

theorem sort_dict_key_order_witness:
  "wf_node example_node
   \<and> keys_ordered the_policy (Some ''Root'') (sort_dict the_policy example_node (Some ''Root''))"
  using sort_dict_key_order [of example_node the_policy "Some ''Root''"] wf_example_node
  by blast

section \<open>Per-tag lists replace the global list\<close>

text \<open>
  Claim C5. When the parent tag has a list of its own in \<open>element_priority_keywords_map\<close>,
  that list alone is the resolved list: the sort key of an entry is its position in the
  per-tag list when the key occurs there and \<open>(1, key_lower)\<close> otherwise, whatever the global
  list holds; replacing the global list by any other list \<open>g\<close> changes neither the sort key
  nor the order of the keys of the sorted mapping, which is the order of the specification
  for the per-tag list.
\<close>

theorem per_tag_list_replaces_global:
  assumes "parent_tag \<noteq> []"
    and "map_of (element_priority_keywords_map P) parent_tag = Some ps"
  shows "resolved_keywords P (Some parent_tag) = ps
    \<and> priority_key_func P (Some parent_tag) (k, v)
        = (if is_priority ps k then Prio (position ps k) else Rest (lower k))
    \<and> priority_key_func (P\<lparr>priority_keywords := g\<rparr>) (Some parent_tag) (k, v)
        = priority_key_func P (Some parent_tag) (k, v)
    \<and> (wf_node (Mapping d) \<longrightarrow>
         keys_of (sort_dict (P\<lparr>priority_keywords := g\<rparr>) (Mapping d) (Some parent_tag))
         = keys_of (sort_dict P (Mapping d) (Some parent_tag)))
    \<and> (wf_node (Mapping d) \<longrightarrow>
         key_order ps (keys_of (sort_dict P (Mapping d) (Some parent_tag))))"
proof -
  have r1: "resolved_keywords P (Some parent_tag) = ps"
    using assms by (rule resolved_specific) simp
  have r2: "resolved_keywords (P\<lparr>priority_keywords := g\<rparr>) (Some parent_tag) = ps"
    using assms by (rule resolved_specific) simp
  have k1: "priority_key_func P (Some parent_tag) (k, v)
        = (if is_priority ps k then Prio (position ps k) else Rest (lower k))"
    by (simp only: priority_key_func_key_of r1 key_of_cases fst_conv)
  have k2: "priority_key_func (P\<lparr>priority_keywords := g\<rparr>) (Some parent_tag) (k, v)
        = priority_key_func P (Some parent_tag) (k, v)"
    by (simp only: priority_key_func_key_of r1 r2)
  have s1: "keys_of (sort_dict (P\<lparr>priority_keywords := g\<rparr>) (Mapping d) (Some parent_tag))
         = keys_of (sort_dict P (Mapping d) (Some parent_tag))" if "wf_node (Mapping d)"
  proof -
    from that have "distinct (map fst d)" by simp
    then show ?thesis by (simp only: keys_of_sort_dict r1 r2)
  qed
  have s2: "key_order ps (keys_of (sort_dict P (Mapping d) (Some parent_tag)))"
    if "wf_node (Mapping d)"
  proof -
    from that have "distinct (map fst d)" by simp
    then have "keys_of (sort_dict P (Mapping d) (Some parent_tag))
        = sort_key (\<lambda>k. key_of ps (lower k)) (map fst d)"
      by (simp only: keys_of_sort_dict r1)
    moreover have "sorted (map (\<lambda>k. key_of ps (lower k))
        (sort_key (\<lambda>k. key_of ps (lower k)) (map fst d)))"
      by (rule sorted_sort_key)
    ultimately show ?thesis by (simp only: sorted_key_order)
  qed
  from r1 k1 k2 s1 s2 show ?thesis by blast
qed

text \<open>
  The theorem at \<open>TransRouting\<close>, whose list is \<open>[profileName]\<close>: the key \<open>id\<close> is in the
  global list and is sorted as a key without priority.
\<close>

theorem per_tag_list_replaces_global_witness:
  "''TransRouting'' \<noteq> []
   \<and> map_of (element_priority_keywords_map the_policy) ''TransRouting'' = Some [''profileName'']
   \<and> is_priority (priority_keywords the_policy) ''id''
   \<and> priority_key_func the_policy (Some ''TransRouting'') (''id'', Leaf ''7'') = Rest (lower ''id'')
   \<and> wf_node (Mapping example_block)
   \<and> key_order [''profileName'']
        (keys_of (sort_dict the_policy (Mapping example_block) (Some ''TransRouting'')))"
  using per_tag_list_replaces_global [OF example_block_facts(1,2), of "''id''" "Leaf ''7''" "[]" example_block]
    example_block_facts
  by simp

section \<open>Sorting twice\<close>



section \<open>Lists hold at least two items\<close>

text \<open>
  Claim C9. In the tree built by \<open>xml_to_dict\<close> every list that is the value of a mapping
  entry holds at least two items: the first child with a tag is stored as it is, and a list
  is made, with two items, when a second child with that tag arrives. \<open>sort_dict\<close> keeps
  this: it returns a list only for a list, of the same length, and the sorted tree of a
  tree with the property has it.
\<close>

theorem lists_hold_two_items:
  "lists_ge2 (xml_to_dict e)
   \<and> (map_of result tg = None \<longrightarrow> add_child result tg (xml_to_dict e) = result @ [(tg, xml_to_dict e)])
   \<and> (map_of result tg = Some (xml_to_dict e') \<longrightarrow>
        map_of (add_child result tg (xml_to_dict e)) tg = Some (Seq [xml_to_dict e', xml_to_dict e]))
   \<and> (wf_node d \<and> lists_ge2 d \<longrightarrow> lists_ge2 (sort_dict P d t))
   \<and> lists_ge2 (sort_dict P (xml_to_dict e) t)
   \<and> (sort_dict P d t = Seq ds' \<longrightarrow> (\<exists>ds. d = Seq ds \<and> length ds' = length ds))"
proof (intro conjI impI)
  show "lists_ge2 (xml_to_dict e)" by (rule lists_ge2_xml_to_dict)
next
  assume "map_of result tg = None"
  then have "tg \<notin> set (map fst result)" by (simp add: map_of_eq_None_iff)
  with \<open>map_of result tg = None\<close>
  show "add_child result tg (xml_to_dict e) = result @ [(tg, xml_to_dict e)]"
    by (simp add: add_child_def dict_set_fresh)
next
  assume old: "map_of result tg = Some (xml_to_dict e')"
  have "map_of (dict_set r k w) k = Some w" for r :: "(string \<times> node) list" and k w
    by (induction r) auto
  with old show "map_of (add_child result tg (xml_to_dict e)) tg
      = Some (Seq [xml_to_dict e', xml_to_dict e])"
    by (cases "xml_to_dict e'") (simp_all add: add_child_def xml_to_dict_not_Seq)
next
  assume "wf_node d \<and> lists_ge2 d"
  then show "lists_ge2 (sort_dict P d t)" by (simp add: lists_ge2_sort_dict)
next
  show "lists_ge2 (sort_dict P (xml_to_dict e) t)"
    by (rule lists_ge2_sort_dict) (rule wf_xml_to_dict, rule lists_ge2_xml_to_dict)
next
  assume "sort_dict P d t = Seq ds'"
  then show "\<exists>ds. d = Seq ds \<and> length ds' = length ds" by (rule sort_dict_Seq)
qed

text \<open>The theorem at a dict with a list of two dicts, and at a second child \<open>b\<close>.\<close>

theorem lists_hold_two_items_witness:
  "wf_node example_node \<and> lists_ge2 example_node
   \<and> lists_ge2 (sort_dict the_policy example_node (Some ''Root''))
   \<and> map_of [(''b'', xml_to_dict (Element ''b'' [] (Some ''1'') []))] ''b''
       = Some (xml_to_dict (Element ''b'' [] (Some ''1'') []))
   \<and> map_of (add_child [(''b'', xml_to_dict (Element ''b'' [] (Some ''1'') []))] ''b''
         (xml_to_dict (Element ''b'' [] (Some ''2'') []))) ''b''
       = Some (Seq [xml_to_dict (Element ''b'' [] (Some ''1'') []),
                    xml_to_dict (Element ''b'' [] (Some ''2'') [])])"
  using lists_hold_two_items [of "Element ''b'' [] (Some ''2'') []"
      "[(''b'', xml_to_dict (Element ''b'' [] (Some ''1'') []))]" "''b''"
      "Element ''b'' [] (Some ''1'') []" example_node the_policy "Some ''Root''"]
    wf_example_node lists_ge2_example_node
  by simp

section \<open>Lemmas on the scans, the passes and the run\<close>

subsection \<open>Splitting\<close>



lemma split_char_append:
  "c \<notin> set t \<Longrightarrow> split_char c (t @ c # r) = t # split_char c r"
  by (induction t) auto

lemma hd_split_char: "c \<notin> set t \<Longrightarrow> hd (split_char c (t @ c # r)) = t"
  by (simp add: split_char_append)


subsection \<open>Loops that may raise\<close>

lemma fold_err_invariant:
  assumes "I s" and "\<And>x s. x \<in> set xs \<Longrightarrow> I s \<Longrightarrow> \<exists>s'. f x s = Inr s' \<and> I s'"
  shows "\<exists>s'. fold_err f xs s = Inr s' \<and> I s'"
  using assms
proof (induction xs arbitrary: s)
  case Nil
  then show ?case by simp
next
  case (Cons x xs)
  from Cons.prems(2) [of x s] Cons.prems(1) obtain s1 where s1: "f x s = Inr s1" "I s1"
    by auto
  have "\<exists>s'. fold_err f xs s1 = Inr s' \<and> I s'"
    by (rule Cons.IH [OF s1(2)]) (use Cons.prems(2) in auto)
  with s1(1) show ?case by simp
qed

lemma fold_err_fixed:
  assumes "\<And>x. x \<in> set xs \<Longrightarrow> f x s = Inr s"
  shows "fold_err f xs s = Inr s"
  using assms by (induction xs) auto

subsection \<open>The keys of the third scan\<close>

lemma context_of_eq:
  "context_of start ids = start @ concat (map (\<lambda>idv. '':'' @ fst idv @ ''='' @ snd idv) ids)"
  unfolding context_of_def by (induction ids arbitrary: start) auto

lemma context_key_head:
  assumes "CHR '':'' \<notin> set t"
  shows "hd (split_char CHR '':'' (context_of t ids @ '':'' @ w)) = t"
proof -
  have "\<exists>r. concat (map (\<lambda>idv. '':'' @ fst idv @ ''='' @ snd idv) ids) @ '':'' @ w = CHR '':'' # r"
    by (cases ids) auto
  then obtain r where "context_of t ids @ '':'' @ w = t @ CHR '':'' # r"
    by (auto simp: context_of_eq)
  with assms show ?thesis by (simp add: hd_split_char)
qed

lemma heads_in_dict_set:
  "heads_in T mp \<Longrightarrow> hd (split_char CHR '':'' k) \<in> T \<Longrightarrow> heads_in T (dict_set mp k v)"
  using set_dict_set [of mp k v] unfolding heads_in_def by auto

lemma heads_in_foldl_dict_set:
  assumes "heads_in T mp" and "\<And>m. hd (split_char CHR '':'' (kf m)) \<in> T"
  shows "heads_in T (foldl (\<lambda>mp m. dict_set mp (kf m) (vf m)) mp ms)"
  using assms(1) by (induction ms arbitrary: mp) (auto intro: heads_in_dict_set assms(2))

lemma find_xml_content_heads:
  assumes "\<forall>t\<in>set targets. CHR '':'' \<notin> set t \<and> (\<exists>p. element_pattern lib t = Inr p)"
  shows "\<exists>mp. find_xml_content_in_elements lib content targets = Inr mp
           \<and> heads_in (set targets) mp"
  unfolding find_xml_content_in_elements_def
proof (rule fold_err_invariant)
  show "heads_in (set targets) []" by (simp add: heads_in_def)
next
  fix t and mp :: "(string \<times> string \<times> string) list"
  assume t: "t \<in> set targets" and mp: "heads_in (set targets) mp"
  from assms t obtain p0 where lit: "element_pattern lib t = Inr p0"
    and colon: "CHR '':'' \<notin> set t" by auto
  have key: "hd (split_char CHR '':'' (context_of t ids @ '':'' @ w)) \<in> set targets" for ids w
    using context_key_head [OF colon] t by simp
  define step where "step = (\<lambda>(mp :: (string \<times> string \<times> string) list) element_match.
                 let element_content = group content element_match 1;
                     identifiers = findall2 (identifier_pattern [''profileName'', ''name'', ''id''])
                       element_content;
                     context_key = context_of t identifiers;
                     mp1 = foldl (\<lambda>mp cdata_match.
                             dict_set mp
                               (context_key @ '':'' @ strip (group element_content cdata_match 1))
                               (''cdata'', group element_content cdata_match 2))
                           mp (finditer cdata_pattern element_content)
                 in foldl (\<lambda>mp escaped_match.
                         dict_set mp
                           (context_key @ '':'' @ strip (group element_content escaped_match 1))
                           (''escaped'', group element_content escaped_match 2))
                       mp1 (finditer escaped_pattern element_content))"
  have step_ok: "heads_in (set targets) (step a m)" if "heads_in (set targets) a" for a m
    unfolding step_def Let_def
    by (intro heads_in_foldl_dict_set that key)
  have "heads_in (set targets) (foldl step mp ms)" for ms
    using mp by (induction ms arbitrary: mp) (auto intro: step_ok)
  then show "\<exists>s'. (case element_pattern lib t of Inl e \<Rightarrow> Inl e
            | Inr p \<Rightarrow> Inr (foldl (\<lambda>mp element_match.
                 let element_content = group content element_match 1;
                     identifiers = findall2 (identifier_pattern [''profileName'', ''name'', ''id''])
                       element_content;
                     context_key = context_of t identifiers;
                     mp1 = foldl (\<lambda>mp cdata_match.
                             dict_set mp
                               (context_key @ '':'' @ strip (group element_content cdata_match 1))
                               (''cdata'', group element_content cdata_match 2))
                           mp (finditer cdata_pattern element_content)
                 in foldl (\<lambda>mp escaped_match.
                         dict_set mp
                           (context_key @ '':'' @ strip (group element_content escaped_match 1))
                           (''escaped'', group element_content escaped_match 2))
                       mp1 (finditer escaped_pattern element_content))
               mp (finditer p content))) = Inr s' \<and> heads_in (set targets) s'"
    unfolding step_def [symmetric] lit by simp
qed

subsection \<open>The third pass when no parent block is on one line\<close>

lemma refine_special_no_parent:
  assumes "\<forall>entry\<in>set mp. \<exists>p. parent_pattern lib (hd (split_char CHR '':'' (fst entry))) = Inr p
             \<and> finditer p out = []"
  shows "refine_special lib mp out = Inr out"
  unfolding refine_special_def
proof (rule fold_err_fixed)
  fix entry assume "entry \<in> set mp"
  with assms obtain p where "parent_pattern lib (hd (split_char CHR '':'' (fst entry))) = Inr p"
    "finditer p out = []" by blast
  then show "(let context_key = fst entry; content_type = fst (snd entry); content = snd (snd entry);
             parts = split_char CHR '':'' context_key;
             parent_element = hd parts;
             xml_tag = last parts;
             identifiers = filter (\<lambda>part. CHR ''='' \<in> set part) (butlast (tl parts))
         in case parent_pattern lib parent_element of
              Inl e \<Rightarrow> Inl e
            | Inr p \<Rightarrow>
                fold_err (refine_in_parent lib parent_element identifiers xml_tag content_type content out)
                  (finditer p out) out) = Inr out"
    by (simp add: Let_def)
qed

subsection \<open>The namespace of the root\<close>




lemma namespace_of_no_brace: "\<not> starts_with t ''{'' \<Longrightarrow> namespace_of t = None"
  by (simp add: namespace_of_def re_match_def match_at_def namespace_pattern_def)

subsection \<open>The element built by \<open>dict_to_xml\<close>\<close>




subsection \<open>Attributes of the input\<close>


lemma text_strip_attribs: "text_of (strip_attribs e) = text_of e"
  by (cases e) simp


subsection \<open>Tags without a namespace\<close>









subsection \<open>Where the error of a CDB-backup file can come from\<close>


























subsection \<open>The tags of the third scan\<close>

lemma special_tags_no_colon: "list_all (\<lambda>t. CHR '':'' \<notin> set t) special_tags"
  by code_simp

lemma compiles_blocksD:
  assumes "compiles_blocks lib tags" and "t \<in> set tags"
  shows "element_pattern lib t = Inr (block_form True t)"
    and "parent_pattern lib t = Inr (block_form False t)"
  using assms
  by (auto simp: compiles_blocks_def element_pattern_def parent_pattern_def compiled_def
      block_text_def)

lemma table_lib_blocks: "compiles_blocks (table_lib ps qs) special_tags"
  unfolding compiles_blocks_def table_lib_def by code_simp

lemma routing_context_parts:
  "split_char CHR '':'' ''Root:profileName=P1:profileName=P2:profileXml''
   = [''Root'', ''profileName=P1'', ''profileName=P2'', ''profileXml'']"
  by code_simp

subsection \<open>The document with the payloads \<open><x/>\<close> and \<open><y/>\<close>\<close>

lemma markup_cdata_sections:
  "find_cdata_sections (routing_text ''<x/>'' ''<y/>'') =
     [(''Root:profileName=P1:profileName=P2:profileXml'', ''profileXml'', ''<x/>''),
      (''Root:profileName=P1:profileName=P2:profileXml'', ''profileXml'', ''<y/>'')]"
  by code_simp

lemma markup_declarations:
  "find_xml_declaration_escaped_content (routing_text ''<x/>'' ''<y/>'') = Inr []"
  by code_simp

lemma markup_not_config: "\<not> starts_with (lstrip (routing_text ''<x/>'' ''<y/>'')) ''<config''"
  by code_simp

lemma markup_new_root: "new_root lib the_policy (routing_root ''<x/>'' ''<y/>'') = Inr (routing_root ''<x/>'' ''<y/>'')"
  by code_simp

lemma markup_strip_decl:
  "(case (if contains (decl_line @ routing_pretty ''&lt;x/&gt;'' ''&lt;y/&gt;'') ''<?xml''
          then after_first_newline (decl_line @ routing_pretty ''&lt;x/&gt;'' ''&lt;y/&gt;'')
          else Inr (decl_line @ routing_pretty ''&lt;x/&gt;'' ''&lt;y/&gt;'')) of
      Inl e \<Rightarrow> Inl e
    | Inr pretty_xml \<Rightarrow> Inr (replace pretty_xml ''&quot;'' ''\"''))
   = Inr (routing_pretty ''&lt;x/&gt;'' ''&lt;y/&gt;'')"
  by code_simp

lemma markup_grouped:
  "group_by_tag
     [(''Root:profileName=P1:profileName=P2:profileXml'', ''profileXml'', ''<x/>''),
      (''Root:profileName=P1:profileName=P2:profileXml'', ''profileXml'', ''<y/>'')]
   = [(''profileXml'', [(''Root:profileName=P1:profileName=P2:profileXml'', ''<x/>''), (''Root:profileName=P1:profileName=P2:profileXml'', ''<y/>'')])]"
  by code_simp

lemma markup_no_Root_line:
  "finditer (block_form False ''Root'') (routing_pretty ''&lt;x/&gt;'' ''&lt;y/&gt;'') = []"
  by code_simp

lemma markup_no_TransRouting_line:
  "finditer (block_form False ''TransRouting'') (routing_pretty ''&lt;x/&gt;'' ''&lt;y/&gt;'') = []"
  by code_simp

lemma markup_no_normalizationSettings_line:
  "finditer (block_form False ''normalizationSettings'') (routing_pretty ''&lt;x/&gt;'' ''&lt;y/&gt;'') = []"
  by code_simp

lemma markup_restore_cdata:
  assumes "compiles_blocks lib special_tags"
  shows "restore_cdata lib (group_by_tag
     [(''Root:profileName=P1:profileName=P2:profileXml'', ''profileXml'', ''<x/>''),
      (''Root:profileName=P1:profileName=P2:profileXml'', ''profileXml'', ''<y/>'')])
     (routing_pretty ''&lt;x/&gt;'' ''&lt;y/&gt;'')
   = Inr (routing_pretty ''&lt;x/&gt;'' ''&lt;y/&gt;'')"
proof -
  have pp: "parent_pattern lib ''Root'' = Inr (block_form False ''Root'')"
    by (rule compiles_blocksD(2) [OF assms]) (simp add: special_tags_def)
  have each: "restore_by_context lib ''profileXml'' (''Root:profileName=P1:profileName=P2:profileXml'', c) (routing_pretty ''&lt;x/&gt;'' ''&lt;y/&gt;'') = Inr (routing_pretty ''&lt;x/&gt;'' ''&lt;y/&gt;'')" for c
    unfolding restore_by_context_def Let_def fst_conv snd_conv routing_context_parts
    using pp markup_no_Root_line by simp
  show ?thesis
    unfolding markup_grouped restore_cdata_def by (simp add: each)
qed

lemma markup_fallback_sweep:
  "fallback_sweep (routing_pretty ''&lt;x/&gt;'' ''&lt;y/&gt;'') = Inr (routing_pretty ''<![CDATA[<x/>]]>'' ''<![CDATA[<y/>]]>'')"
  by code_simp

lemma markup_output_text:
  assumes parse: "et_parse lib (routing_text ''<x/>'' ''<y/>'') = Some (routing_root ''<x/>'' ''<y/>'')"
    and print: "toprettyxml lib (routing_root ''<x/>'' ''<y/>'') = Some (decl_line @ routing_pretty ''&lt;x/&gt;'' ''&lt;y/&gt;'')"
    and enum: "\<And>xs. set (list_of_set lib xs) = set xs"
    and blocks: "compiles_blocks lib special_tags"
  shows "output_text lib the_policy (routing_text ''<x/>'' ''<y/>'') = Inr (routing_pretty ''<![CDATA[<x/>]]>'' ''<![CDATA[<y/>]]>'')"
proof -
  define cds where "cds = [(''Root:profileName=P1:profileName=P2:profileXml'', ''profileXml'', ''<x/>''),
      (''Root:profileName=P1:profileName=P2:profileXml'', ''profileXml'', ''<y/>'')]"
  define special where "special = special_elements_of lib cds"
  have tags: "map (\<lambda>section. hd (split_char CHR '':'' (fst section))) cds = [''Root'', ''Root'']"
    unfolding cds_def by code_simp
  have special: "set special = set special_tags"
    unfolding special_def special_elements_of_def Let_def tags special_tags_def
    by (simp add: enum insert_commute)
  have "\<forall>t\<in>set special. CHR '':'' \<notin> set t \<and> (\<exists>p. element_pattern lib t = Inr p)"
    unfolding special using special_tags_no_colon compiles_blocksD(1) [OF blocks]
    by (simp add: list_all_iff)
  from find_xml_content_heads [OF this, of "routing_text ''<x/>'' ''<y/>''"]
  obtain mp where mp: "find_xml_content_in_elements lib (routing_text ''<x/>'' ''<y/>'') special = Inr mp"
    and heads: "heads_in (set special_tags) mp"
    unfolding special by blast
  have pretty: "prettify lib (routing_root ''<x/>'' ''<y/>'') = Inr (routing_pretty ''&lt;x/&gt;'' ''&lt;y/&gt;'')"
    unfolding prettify_def print option.case by (rule markup_strip_decl)
  have p1: "restore_cdata lib (group_by_tag cds) (routing_pretty ''&lt;x/&gt;'' ''&lt;y/&gt;'') = Inr (routing_pretty ''&lt;x/&gt;'' ''&lt;y/&gt;'')"
    unfolding cds_def by (rule markup_restore_cdata [OF blocks])
  have p2: "promote_declarations lib [] (group_by_tag cds) (routing_pretty ''&lt;x/&gt;'' ''&lt;y/&gt;'') = Inr (routing_pretty ''&lt;x/&gt;'' ''&lt;y/&gt;'')"
    by (simp add: promote_declarations_def)
  have p3: "refine_special lib mp (routing_pretty ''&lt;x/&gt;'' ''&lt;y/&gt;'') = Inr (routing_pretty ''&lt;x/&gt;'' ''&lt;y/&gt;'')"
  proof (rule refine_special_no_parent, rule ballI)
    fix entry assume "entry \<in> set mp"
    with heads have head: "hd (split_char CHR '':'' (fst entry)) \<in> set special_tags"
      by (simp add: heads_in_def)
    then consider "hd (split_char CHR '':'' (fst entry)) = ''Root''"
      | "hd (split_char CHR '':'' (fst entry)) = ''TransRouting''"
      | "hd (split_char CHR '':'' (fst entry)) = ''normalizationSettings''"
      unfolding special_tags_def by auto
    then have "finditer (block_form False (hd (split_char CHR '':'' (fst entry)))) (routing_pretty ''&lt;x/&gt;'' ''&lt;y/&gt;'') = []"
      using markup_no_Root_line markup_no_TransRouting_line
        markup_no_normalizationSettings_line
      by cases simp_all
    with compiles_blocksD(2) [OF blocks head]
    show "\<exists>p. parent_pattern lib (hd (split_char CHR '':'' (fst entry))) = Inr p
        \<and> finditer p (routing_pretty ''&lt;x/&gt;'' ''&lt;y/&gt;'') = []"
      by blast
  qed
  have re: "reinsert lib cds [] mp (routing_pretty ''&lt;x/&gt;'' ''&lt;y/&gt;'') = Inr (routing_pretty ''<![CDATA[<x/>]]>'' ''<![CDATA[<y/>]]>'')"
    unfolding reinsert_def Let_def p1 p2 p3 sum.case by (rule markup_fallback_sweep)
  show ?thesis
    unfolding output_text_def Let_def markup_cdata_sections [folded cds_def] markup_declarations
      special_def [symmetric] mp sum.case
    using markup_not_config
    by (simp only: if_False parse option.case markup_new_root sum.case pretty re)
qed

subsection \<open>The document with the payloads \<open>hello\<close> and \<open>world\<close>\<close>

lemma plain_cdata_sections:
  "find_cdata_sections (routing_text ''hello'' ''world'') =
     [(''Root:profileName=P1:profileName=P2:profileXml'', ''profileXml'', ''hello''),
      (''Root:profileName=P1:profileName=P2:profileXml'', ''profileXml'', ''world'')]"
  by code_simp

lemma plain_declarations:
  "find_xml_declaration_escaped_content (routing_text ''hello'' ''world'') = Inr []"
  by code_simp

lemma plain_not_config: "\<not> starts_with (lstrip (routing_text ''hello'' ''world'')) ''<config''"
  by code_simp

lemma plain_new_root: "new_root lib the_policy (routing_root ''hello'' ''world'') = Inr (routing_root ''hello'' ''world'')"
  by code_simp

lemma plain_strip_decl:
  "(case (if contains (decl_line @ routing_pretty ''hello'' ''world'') ''<?xml''
          then after_first_newline (decl_line @ routing_pretty ''hello'' ''world'')
          else Inr (decl_line @ routing_pretty ''hello'' ''world'')) of
      Inl e \<Rightarrow> Inl e
    | Inr pretty_xml \<Rightarrow> Inr (replace pretty_xml ''&quot;'' ''\"''))
   = Inr (routing_pretty ''hello'' ''world'')"
  by code_simp

lemma plain_grouped:
  "group_by_tag
     [(''Root:profileName=P1:profileName=P2:profileXml'', ''profileXml'', ''hello''),
      (''Root:profileName=P1:profileName=P2:profileXml'', ''profileXml'', ''world'')]
   = [(''profileXml'', [(''Root:profileName=P1:profileName=P2:profileXml'', ''hello''), (''Root:profileName=P1:profileName=P2:profileXml'', ''world'')])]"
  by code_simp

lemma plain_no_Root_line:
  "finditer (block_form False ''Root'') (routing_pretty ''hello'' ''world'') = []"
  by code_simp

lemma plain_no_TransRouting_line:
  "finditer (block_form False ''TransRouting'') (routing_pretty ''hello'' ''world'') = []"
  by code_simp

lemma plain_no_normalizationSettings_line:
  "finditer (block_form False ''normalizationSettings'') (routing_pretty ''hello'' ''world'') = []"
  by code_simp

lemma plain_restore_cdata:
  assumes "compiles_blocks lib special_tags"
  shows "restore_cdata lib (group_by_tag
     [(''Root:profileName=P1:profileName=P2:profileXml'', ''profileXml'', ''hello''),
      (''Root:profileName=P1:profileName=P2:profileXml'', ''profileXml'', ''world'')])
     (routing_pretty ''hello'' ''world'')
   = Inr (routing_pretty ''hello'' ''world'')"
proof -
  have pp: "parent_pattern lib ''Root'' = Inr (block_form False ''Root'')"
    by (rule compiles_blocksD(2) [OF assms]) (simp add: special_tags_def)
  have each: "restore_by_context lib ''profileXml'' (''Root:profileName=P1:profileName=P2:profileXml'', c) (routing_pretty ''hello'' ''world'') = Inr (routing_pretty ''hello'' ''world'')" for c
    unfolding restore_by_context_def Let_def fst_conv snd_conv routing_context_parts
    using pp plain_no_Root_line by simp
  show ?thesis
    unfolding plain_grouped restore_cdata_def by (simp add: each)
qed

lemma plain_fallback_sweep:
  "fallback_sweep (routing_pretty ''hello'' ''world'') = Inr (routing_pretty ''hello'' ''world'')"
  by code_simp

lemma plain_output_text:
  assumes parse: "et_parse lib (routing_text ''hello'' ''world'') = Some (routing_root ''hello'' ''world'')"
    and print: "toprettyxml lib (routing_root ''hello'' ''world'') = Some (decl_line @ routing_pretty ''hello'' ''world'')"
    and enum: "\<And>xs. set (list_of_set lib xs) = set xs"
    and blocks: "compiles_blocks lib special_tags"
  shows "output_text lib the_policy (routing_text ''hello'' ''world'') = Inr (routing_pretty ''hello'' ''world'')"
proof -
  define cds where "cds = [(''Root:profileName=P1:profileName=P2:profileXml'', ''profileXml'', ''hello''),
      (''Root:profileName=P1:profileName=P2:profileXml'', ''profileXml'', ''world'')]"
  define special where "special = special_elements_of lib cds"
  have tags: "map (\<lambda>section. hd (split_char CHR '':'' (fst section))) cds = [''Root'', ''Root'']"
    unfolding cds_def by code_simp
  have special: "set special = set special_tags"
    unfolding special_def special_elements_of_def Let_def tags special_tags_def
    by (simp add: enum insert_commute)
  have "\<forall>t\<in>set special. CHR '':'' \<notin> set t \<and> (\<exists>p. element_pattern lib t = Inr p)"
    unfolding special using special_tags_no_colon compiles_blocksD(1) [OF blocks]
    by (simp add: list_all_iff)
  from find_xml_content_heads [OF this, of "routing_text ''hello'' ''world''"]
  obtain mp where mp: "find_xml_content_in_elements lib (routing_text ''hello'' ''world'') special = Inr mp"
    and heads: "heads_in (set special_tags) mp"
    unfolding special by blast
  have pretty: "prettify lib (routing_root ''hello'' ''world'') = Inr (routing_pretty ''hello'' ''world'')"
    unfolding prettify_def print option.case by (rule plain_strip_decl)
  have p1: "restore_cdata lib (group_by_tag cds) (routing_pretty ''hello'' ''world'') = Inr (routing_pretty ''hello'' ''world'')"
    unfolding cds_def by (rule plain_restore_cdata [OF blocks])
  have p2: "promote_declarations lib [] (group_by_tag cds) (routing_pretty ''hello'' ''world'') = Inr (routing_pretty ''hello'' ''world'')"
    by (simp add: promote_declarations_def)
  have p3: "refine_special lib mp (routing_pretty ''hello'' ''world'') = Inr (routing_pretty ''hello'' ''world'')"
  proof (rule refine_special_no_parent, rule ballI)
    fix entry assume "entry \<in> set mp"
    with heads have head: "hd (split_char CHR '':'' (fst entry)) \<in> set special_tags"
      by (simp add: heads_in_def)
    then consider "hd (split_char CHR '':'' (fst entry)) = ''Root''"
      | "hd (split_char CHR '':'' (fst entry)) = ''TransRouting''"
      | "hd (split_char CHR '':'' (fst entry)) = ''normalizationSettings''"
      unfolding special_tags_def by auto
    then have "finditer (block_form False (hd (split_char CHR '':'' (fst entry)))) (routing_pretty ''hello'' ''world'') = []"
      using plain_no_Root_line plain_no_TransRouting_line
        plain_no_normalizationSettings_line
      by cases simp_all
    with compiles_blocksD(2) [OF blocks head]
    show "\<exists>p. parent_pattern lib (hd (split_char CHR '':'' (fst entry))) = Inr p
        \<and> finditer p (routing_pretty ''hello'' ''world'') = []"
      by blast
  qed
  have re: "reinsert lib cds [] mp (routing_pretty ''hello'' ''world'') = Inr (routing_pretty ''hello'' ''world'')"
    unfolding reinsert_def Let_def p1 p2 p3 sum.case by (rule plain_fallback_sweep)
  show ?thesis
    unfolding output_text_def Let_def plain_cdata_sections [folded cds_def] plain_declarations
      special_def [symmetric] mp sum.case
    using plain_not_config
    by (simp only: if_False parse option.case plain_new_root sum.case pretty re)
qed

subsection \<open>Runs of the examples\<close>

lemma table_lib_enum: "set (list_of_set (table_lib ps qs) xs) = set xs"
  by (simp add: table_lib_def)




lemma plain_run:
  "process_xml_file plain_lib the_policy (one_file ''in.xml'' (routing_text ''hello'' ''world''))
         ''in.xml'' ''out.xml''
       = (Inr (), (one_file ''in.xml'' (routing_text ''hello'' ''world''))
            \<lparr>files := (files (one_file ''in.xml'' (routing_text ''hello'' ''world'')))(''out.xml'' \<mapsto>
                 routing_pretty ''hello'' ''world''),
             written := [(''out.xml'', routing_pretty ''hello'' ''world'')]\<rparr>)"
proof -
  have a: "et_parse plain_lib (routing_text ''hello'' ''world'') = Some (routing_root ''hello'' ''world'')"
    by (simp add: plain_lib_def table_lib_def)
  have b: "toprettyxml plain_lib (routing_root ''hello'' ''world'')
       = Some (decl_line @ routing_pretty ''hello'' ''world'')"
    by (simp add: plain_lib_def table_lib_def)
  have c: "\<And>xs. set (list_of_set plain_lib xs) = set xs"
    by (simp add: plain_lib_def table_lib_def)
  have "output_text plain_lib the_policy (routing_text ''hello'' ''world'')
      = Inr (routing_pretty ''hello'' ''world'')"
    by (rule plain_output_text [OF a b c]) (simp add: plain_lib_def table_lib_blocks)
  then show ?thesis
    by (simp add: process_xml_file_def write_file_def one_file_def)
qed

lemma plain_texts:
  "contains (routing_text ''hello'' ''world'') ''<![CDATA[hello]]>''"
  "contains (routing_text ''hello'' ''world'') ''<![CDATA[world]]>''"
  "\<not> contains (routing_pretty ''hello'' ''world'') ''<![CDATA[''"
  by code_simp+


section \<open>The namespace of the root\<close>



section \<open>Attributes of the input\<close>



section \<open>The error for a CDB-backup file\<close>




section \<open>One write, at the end\<close>



section \<open>Two \<open>TransRouting\<close> blocks\<close>

text \<open>
  Claim C3. For the document with two \<open>TransRouting\<close> blocks, the first with the
  \<open>profileName\<close> \<open>P1\<close> and the CDATA payload \<open><x/>\<close>, the second with \<open>P2\<close> and
  \<open><y/>\<close>, the output file holds \<open><x/>\<close> in a CDATA section in the block of \<open>P1\<close> and
  \<open><y/>\<close> in the block of \<open>P2\<close>. This holds for every library that parses the document
  to its element, prints the sorted element as the printer of Python does, compiles the
  block patterns of the three special tags to their forms, and enumerates a set in any
  order.
\<close>

theorem routing_payloads_not_swapped:
  assumes "et_parse lib (routing_text ''<x/>'' ''<y/>'') = Some (routing_root ''<x/>'' ''<y/>'')"
    and "toprettyxml lib (routing_root ''<x/>'' ''<y/>'')
           = Some (decl_line @ routing_pretty ''&lt;x/&gt;'' ''&lt;y/&gt;'')"
    and "\<And>xs. set (list_of_set lib xs) = set xs"
    and "compiles_blocks lib special_tags"
    and "files fs input_file = Some (routing_text ''<x/>'' ''<y/>'')"
    and "writable fs output_file"
  shows "process_xml_file lib the_policy fs input_file output_file
         = (Inr (), fs\<lparr>files := (files fs)(output_file \<mapsto>
                              routing_pretty ''<![CDATA[<x/>]]>'' ''<![CDATA[<y/>]]>''),
                        written := written fs @ [(output_file,
                              routing_pretty ''<![CDATA[<x/>]]>'' ''<![CDATA[<y/>]]>'')]\<rparr>)"
  using assms(5,6) markup_output_text [OF assms(1,2,3,4)]
  by (simp add: process_xml_file_def write_file_def)

text \<open>The theorem for the library of the example and a file system with the one input file.\<close>

theorem routing_payloads_not_swapped_witness:
  "et_parse markup_lib (routing_text ''<x/>'' ''<y/>'') = Some (routing_root ''<x/>'' ''<y/>'')
   \<and> toprettyxml markup_lib (routing_root ''<x/>'' ''<y/>'')
       = Some (decl_line @ routing_pretty ''&lt;x/&gt;'' ''&lt;y/&gt;'')
   \<and> compiles_blocks markup_lib special_tags
   \<and> process_xml_file markup_lib the_policy (one_file ''in.xml'' (routing_text ''<x/>'' ''<y/>''))
         ''in.xml'' ''out.xml''
       = (Inr (), (one_file ''in.xml'' (routing_text ''<x/>'' ''<y/>''))
            \<lparr>files := (files (one_file ''in.xml'' (routing_text ''<x/>'' ''<y/>'')))(''out.xml'' \<mapsto>
                 routing_pretty ''<![CDATA[<x/>]]>'' ''<![CDATA[<y/>]]>''),
             written := written (one_file ''in.xml'' (routing_text ''<x/>'' ''<y/>''))
               @ [(''out.xml'', routing_pretty ''<![CDATA[<x/>]]>'' ''<![CDATA[<y/>]]>'')]\<rparr>)"
proof -
  have a: "et_parse markup_lib (routing_text ''<x/>'' ''<y/>'') = Some (routing_root ''<x/>'' ''<y/>'')"
    by (simp add: markup_lib_def table_lib_def)
  have b: "toprettyxml markup_lib (routing_root ''<x/>'' ''<y/>'')
       = Some (decl_line @ routing_pretty ''&lt;x/&gt;'' ''&lt;y/&gt;'')"
    by (simp add: markup_lib_def table_lib_def)
  have c: "\<And>xs. set (list_of_set markup_lib xs) = set xs"
    by (simp add: markup_lib_def table_lib_def)
  have d: "files (one_file ''in.xml'' (routing_text ''<x/>'' ''<y/>'')) ''in.xml''
      = Some (routing_text ''<x/>'' ''<y/>'')"
    by (simp add: one_file_def)
  have e: "writable (one_file ''in.xml'' (routing_text ''<x/>'' ''<y/>'')) ''out.xml''"
    by (simp add: one_file_def)
  have f: "compiles_blocks markup_lib special_tags"
    unfolding markup_lib_def by (rule table_lib_blocks)
  from a b f routing_payloads_not_swapped [OF a b c f d e] show ?thesis by blast
qed

section \<open>CDATA payloads without markup\<close>

text \<open>
  Claim C2 fails on the program. The document with the two \<open>TransRouting\<close> blocks and the
  CDATA payloads \<open>hello\<close> and \<open>world\<close> is processed without an error, and the text written
  holds the payloads as plain text: it has no CDATA section at all. The first and the third
  pass look for the parent block with a pattern whose \<open>.\<close> does not match a newline, in a
  text that has every child on a line of its own, and the fourth pass only wraps a text with
  escaped markup.
\<close>

theorem plain_payloads_lose_cdata:
  "contains (routing_text ''hello'' ''world'') ''<![CDATA[hello]]>''
   \<and> contains (routing_text ''hello'' ''world'') ''<![CDATA[world]]>''
   \<and> process_xml_file plain_lib the_policy (one_file ''in.xml'' (routing_text ''hello'' ''world''))
         ''in.xml'' ''out.xml''
       = (Inr (), (one_file ''in.xml'' (routing_text ''hello'' ''world''))
            \<lparr>files := (files (one_file ''in.xml'' (routing_text ''hello'' ''world'')))(''out.xml'' \<mapsto>
                 routing_pretty ''hello'' ''world''),
             written := [(''out.xml'', routing_pretty ''hello'' ''world'')]\<rparr>)
   \<and> \<not> contains (routing_pretty ''hello'' ''world'') ''<![CDATA[''"
  using plain_texts plain_run by blast

end
